theory Spec2Isabelle
  imports Complex_Main "HOL-Library.Word"
begin

section \<open>SpheremapTool: the cubemap store and the spheremap generator\<close>

text \<open>
  A shallow embedding of \<^verbatim>\<open>src/main.cpp\<close>.

  Numbers. The C++ type \<^verbatim>\<open>float\<close> is IEEE 754 binary32. It has two models here.

  The exact model, in the definitions without suffix, takes \<^typ>\<open>real\<close> for
  \<^verbatim>\<open>float\<close>: every floating-point operation is the exact operation on real numbers,
  so rounding, signed zeros, infinities and NaN are outside it. The one place where it
  would hide a non-number is a division by zero; there it returns the error
  \<open>FloatNotFinite\<close> instead of HOL's \<open>x / 0 = 0\<close>. It carries the statements made in exact
  arithmetic, those about inputs on which every operation is exact in binary32 (the
  canonical directions, the corners of the image), and those about the size of the
  output buffer and the origin of its values.

  The binary32 model, in the type \<open>f32\<close> and the definitions with the suffix \<open>_f32\<close>,
  rounds: a value is a real number, an infinity or NaN, and every operation returns its
  exact result rounded to the nearest binary32 number, ties to the even significand, with
  gradual underflow and with overflow to an infinity. It assumes that each
  \<^verbatim>\<open>float\<close> operation of the source is evaluated in binary32 (no wider intermediate
  format, no fused multiply-add) and that \<^verbatim>\<open>sqrtf\<close> is correctly rounded. The two
  zeros are one value: the program never divides by a negative zero and never reads the
  sign of a zero. It carries the statements about the values that
  \<^verbatim>\<open>computeTexCoords\<close>, \<^verbatim>\<open>sampleFace\<close> and the loop body compute.

  The C++ type \<^verbatim>\<open>int\<close> is a 32-bit two's complement integer. The fields of
  \<^verbatim>\<open>Image\<close> are stored as \<^typ>\<open>32 word\<close> and read with \<^const>\<open>sint\<close>.
  Local \<^verbatim>\<open>int\<close> values are mathematical integers; every signed operation whose
  result leaves the 32-bit range, and every conversion of a \<^verbatim>\<open>float\<close> that does not
  fit, is undefined behaviour in C++ and an error value in the model.

  Failure. \<^verbatim>\<open>assert\<close> aborts the program (the assertions are compiled in, that is
  \<^verbatim>\<open>NDEBUG\<close> is not defined); undefined behaviour has no result at all. Both are values
  of the type \<open>error\<close>, and every function that can reach one returns \<open>error + 'a\<close>
  with \<open>Inl\<close> for the failure.

  Outside the model: the image files and their decoding (\<^verbatim>\<open>stbi_load\<close>), the command
  line, and the writing of the bitmap (\<^verbatim>\<open>stbi_write_bmp\<close>).
\<close>

subsection \<open>Errors and machine integers\<close>

datatype error =
    AssertionFailed
  | OutOfBoundsAccess
  | SignedOverflow
  | CastOutOfRange
  | UninitializedRead
  | FloatNotFinite

type_synonym u32 = "32 word"

definition INT_MIN :: int where
  "INT_MIN = - (2 ^ 31)"

definition INT_MAX :: int where
  "INT_MAX = 2 ^ 31 - 1"

text \<open>The result of a signed \<^verbatim>\<open>int\<close> operation whose mathematical value is \<open>v\<close>.\<close>

definition int_result :: "int \<Rightarrow> error + int" where
  "int_result v = (if INT_MIN \<le> v \<and> v \<le> INT_MAX then Inr v else Inl SignedOverflow)"

text \<open>\<^verbatim>\<open>static_cast<int>(f)\<close>: the fractional part is discarded (truncation toward
  zero); the behaviour is undefined when the truncated value is not an \<^verbatim>\<open>int\<close>.\<close>

definition trunc_toward_zero :: "real \<Rightarrow> int" where
  "trunc_toward_zero f = (if 0 \<le> f then \<lfloor>f\<rfloor> else \<lceil>f\<rceil>)"

definition float_to_int :: "real \<Rightarrow> error + int" where
  "float_to_int f =
     (let i = trunc_toward_zero f
      in if INT_MIN \<le> i \<and> i \<le> INT_MAX then Inr i else Inl CastOutOfRange)"

text \<open>Division of two \<^verbatim>\<open>float\<close>s: by zero it yields an infinity or NaN.\<close>

definition float_div :: "real \<Rightarrow> real \<Rightarrow> error + real" where
  "float_div a b = (if b = 0 then Inl FloatNotFinite else Inr (a / b))"

subsection \<open>Data model\<close>

text \<open>\<^verbatim>\<open>struct Image\<close>. The pixel buffer is read only through
  \<^verbatim>\<open>reinterpret_cast<const u32*>\<close>, so it is kept as the list of its 32-bit texels; a
  null pointer is the empty list.\<close>

record Image =
  width :: "32 word"
  height :: "32 word"
  data :: "u32 list"

datatype CubeFace =
    FACE_POS_X | FACE_NEG_X
  | FACE_POS_Y | FACE_NEG_Y
  | FACE_POS_Z | FACE_NEG_Z
  | NUM_FACES

text \<open>The integral value of an enumerator.\<close>

fun face_value :: "CubeFace \<Rightarrow> int" where
  "face_value FACE_POS_X = 0"
| "face_value FACE_NEG_X = 1"
| "face_value FACE_POS_Y = 2"
| "face_value FACE_NEG_Y = 3"
| "face_value FACE_POS_Z = 4"
| "face_value FACE_NEG_Z = 5"
| "face_value NUM_FACES = 6"

text \<open>\<^verbatim>\<open>CubeFace(i)\<close> for the values that name an enumerator.\<close>

definition CubeFace_of :: "int \<Rightarrow> CubeFace option" where
  "CubeFace_of i =
     (if i = 0 then Some FACE_POS_X
      else if i = 1 then Some FACE_NEG_X
      else if i = 2 then Some FACE_POS_Y
      else if i = 3 then Some FACE_NEG_Y
      else if i = 4 then Some FACE_POS_Z
      else if i = 5 then Some FACE_NEG_Z
      else if i = 6 then Some NUM_FACES
      else None)"

text \<open>\<^verbatim>\<open>struct Cubemap\<close>: the array \<^verbatim>\<open>Image faces[NUM_FACES]\<close>, indexed by the six
  face enumerators. The index \<open>NUM_FACES\<close> lies past the end of the array; the functions
  below never apply \<open>faces\<close> to it.\<close>

record Cubemap =
  faces :: "CubeFace \<Rightarrow> Image"

subsection \<open>Cubemap store\<close>

text \<open>\<^verbatim>\<open>Cubemap::readTexel\<close>, lines 57 to 66. The three assertions, then the read of
  \<^verbatim>\<open>img_data[y * face_img.width + x]\<close>.\<close>

definition readTexel :: "Cubemap \<Rightarrow> CubeFace \<Rightarrow> int \<Rightarrow> int \<Rightarrow> error + u32" where
  "readTexel cm face x y =
     (if \<not> face_value face < face_value NUM_FACES then Inl AssertionFailed
      else
        let face_img = faces cm face in
        if \<not> x < sint (width face_img) then Inl AssertionFailed
        else if \<not> y < sint (height face_img) then Inl AssertionFailed
        else
          case int_result (y * sint (width face_img)) of
            Inl e \<Rightarrow> Inl e
          | Inr p \<Rightarrow>
              (case int_result (p + x) of
                 Inl e \<Rightarrow> Inl e
               | Inr i \<Rightarrow>
                   if 0 \<le> i \<and> i < int (length (data face_img))
                   then Inr (data face_img ! nat i)
                   else Inl OutOfBoundsAccess))"

text \<open>\<^verbatim>\<open>Cubemap::computeTexCoords\<close>, lines 68 to 100, in its four stages.\<close>

text \<open>Lines 69 to 80: the chain of comparisons. When no branch is taken,
  \<^verbatim>\<open>major_axis\<close> is read without having been assigned.\<close>

definition select_axis :: "real \<Rightarrow> real \<Rightarrow> real \<Rightarrow> error + int" where
  "select_axis x y z =
     (let a = [\<bar>x\<bar>, \<bar>y\<bar>, \<bar>z\<bar>] in
      if a ! 0 \<ge> a ! 1 \<and> a ! 0 \<ge> a ! 2 then Inr 0
      else if a ! 1 \<ge> a ! 0 \<and> a ! 1 \<ge> a ! 2 then Inr 1
      else if a ! 2 \<ge> a ! 0 \<and> a ! 2 \<ge> a ! 1 then Inr 2
      else Inl UninitializedRead)"

text \<open>Lines 82 to 85: the axis becomes the face index.\<close>

definition face_index :: "real \<Rightarrow> real \<Rightarrow> real \<Rightarrow> int \<Rightarrow> int" where
  "face_index x y z major_axis =
     (let v = [x, y, z] in
      if v ! nat major_axis < 0 then major_axis * 2 + 1 else major_axis * 2)"

text \<open>Lines 87 to 95: the switch gives \<open>(tmp_s, tmp_t, m)\<close>. It has no default case:
  outside 0..5 the three variables stay unassigned.\<close>

definition face_projection :: "real \<Rightarrow> real \<Rightarrow> real \<Rightarrow> int \<Rightarrow> error + (real \<times> real \<times> real)" where
  "face_projection x y z major_axis =
     (let a = [\<bar>x\<bar>, \<bar>y\<bar>, \<bar>z\<bar>] in
      if major_axis = 0 then Inr (- z, - y, a ! 0)
      else if major_axis = 1 then Inr (z, - y, a ! 0)
      else if major_axis = 2 then Inr (x, z, a ! 1)
      else if major_axis = 3 then Inr (x, - z, a ! 1)
      else if major_axis = 4 then Inr (x, - y, a ! 2)
      else if major_axis = 5 then Inr (- x, - y, a ! 2)
      else Inl UninitializedRead)"

text \<open>Lines 97 to 99: the three results.\<close>

definition computeTexCoords :: "real \<Rightarrow> real \<Rightarrow> real \<Rightarrow> error + (CubeFace \<times> real \<times> real)" where
  "computeTexCoords x y z =
     (case select_axis x y z of
        Inl e \<Rightarrow> Inl e
      | Inr axis \<Rightarrow>
          let major_axis = face_index x y z axis in
          (case face_projection x y z major_axis of
             Inl e \<Rightarrow> Inl e
           | Inr (tmp_s, tmp_t, m) \<Rightarrow>
               (case CubeFace_of major_axis of
                  None \<Rightarrow> Inl CastOutOfRange
                | Some out_face \<Rightarrow>
                    (case float_div tmp_s m of
                       Inl e \<Rightarrow> Inl e
                     | Inr qs \<Rightarrow>
                         (case float_div tmp_t m of
                            Inl e \<Rightarrow> Inl e
                          | Inr qt \<Rightarrow>
                              Inr (out_face, 0.5 * (qs + 1), 0.5 * (qt + 1)))))))"

text \<open>\<^verbatim>\<open>Cubemap::sampleFace\<close>, lines 102 to 109. One texel coordinate is
  \<^verbatim>\<open>std::min(static_cast<int>(s * extent), extent - 1)\<close>.\<close>

definition texel_coord :: "real \<Rightarrow> int \<Rightarrow> error + int" where
  "texel_coord s extent =
     (case float_to_int (s * real_of_int extent) of
        Inl e \<Rightarrow> Inl e
      | Inr i \<Rightarrow>
          (case int_result (extent - 1) of
             Inl e \<Rightarrow> Inl e
           | Inr d \<Rightarrow> Inr (min i d)))"

definition sampleFace :: "Cubemap \<Rightarrow> CubeFace \<Rightarrow> real \<Rightarrow> real \<Rightarrow> error + u32" where
  "sampleFace cm face s t =
     (if \<not> face_value face < face_value NUM_FACES then Inl OutOfBoundsAccess
      else
        let face_img = faces cm face in
        case texel_coord s (sint (width face_img)) of
          Inl e \<Rightarrow> Inl e
        | Inr x \<Rightarrow>
            (case texel_coord t (sint (height face_img)) of
               Inl e \<Rightarrow> Inl e
             | Inr y \<Rightarrow> readTexel cm face x y))"

subsection \<open>Spheremap generator\<close>

text \<open>\<^verbatim>\<open>unlerp\<close>, lines 112 to 114.\<close>

definition unlerp :: "int \<Rightarrow> int \<Rightarrow> error + real" where
  "unlerp val mx = float_div (real_of_int val + 0.5) (real_of_int mx)"

text \<open>The body of the inner loop of \<^verbatim>\<open>main\<close>. Line 136: \<^verbatim>\<open>rev_p\<close>. Lines 135 to 146:
  the direction \<open>(vx, vy, vz)\<close>. Lines 132 to 152: the colour that is stored.\<close>

definition rev_p :: "real \<Rightarrow> real \<Rightarrow> real" where
  "rev_p s t = 16 * (s - s * s + t - t * t) - 4"

definition direction :: "real \<Rightarrow> real \<Rightarrow> real \<times> real \<times> real" where
  "direction s t =
     (if rev_p s t < 0 then (0, 0, - 1)
      else
        let rev_p_sqrt = sqrt (rev_p s t) in
        (rev_p_sqrt * (2 * s - 1),
         rev_p_sqrt * - (2 * t - 1),
         8 * (s - s * s + t - t * t) - 3))"

definition pixel_color :: "Cubemap \<Rightarrow> int \<Rightarrow> int \<Rightarrow> int \<Rightarrow> error + u32" where
  "pixel_color cm output_size x y =
     (case unlerp x output_size of
        Inl e \<Rightarrow> Inl e
      | Inr s \<Rightarrow>
          (case unlerp y output_size of
             Inl e \<Rightarrow> Inl e
           | Inr t \<Rightarrow>
               (case direction s t of
                  (vx, vy, vz) \<Rightarrow>
                    (case computeTexCoords vx vy vz of
                       Inl e \<Rightarrow> Inl e
                     | Inr (cube_face, tex_s, tex_t) \<Rightarrow>
                         sampleFace cm cube_face tex_s tex_t))))"

text \<open>Line 152, the assignment to \<^verbatim>\<open>out_data[y * output_size + x]\<close>.\<close>

definition store_pixel :: "u32 list \<Rightarrow> int \<Rightarrow> int \<Rightarrow> int \<Rightarrow> u32 \<Rightarrow> error + u32 list" where
  "store_pixel out_data output_size x y c =
     (case int_result (y * output_size) of
        Inl e \<Rightarrow> Inl e
      | Inr p \<Rightarrow>
          (case int_result (p + x) of
             Inl e \<Rightarrow> Inl e
           | Inr i \<Rightarrow>
               if 0 \<le> i \<and> i < int (length out_data)
               then Inr (out_data[nat i := c])
               else Inl OutOfBoundsAccess))"

text \<open>The two loops, lines 130 to 154. The counters stay below \<open>output_size\<close>, so
  their increments cannot overflow.\<close>

function inner_loop :: "Cubemap \<Rightarrow> int \<Rightarrow> int \<Rightarrow> int \<Rightarrow> u32 list \<Rightarrow> error + u32 list" where
  "inner_loop cm output_size y x out_data =
     (if x < output_size then
        (case pixel_color cm output_size x y of
           Inl e \<Rightarrow> Inl e
         | Inr c \<Rightarrow>
             (case store_pixel out_data output_size x y c of
                Inl e \<Rightarrow> Inl e
              | Inr out_data' \<Rightarrow> inner_loop cm output_size y (x + 1) out_data'))
      else Inr out_data)"
  by pat_completeness auto

termination
  by (relation "measure (\<lambda>(cm, output_size, y, x, out_data). nat (output_size - x))") auto

function outer_loop :: "Cubemap \<Rightarrow> int \<Rightarrow> int \<Rightarrow> u32 list \<Rightarrow> error + u32 list" where
  "outer_loop cm output_size y out_data =
     (if y < output_size then
        (case inner_loop cm output_size y 0 out_data of
           Inl e \<Rightarrow> Inl e
         | Inr out_data' \<Rightarrow> outer_loop cm output_size (y + 1) out_data')
      else Inr out_data)"
  by pat_completeness auto

termination
  by (relation "measure (\<lambda>(cm, output_size, y, out_data). nat (output_size - y))") auto

text \<open>The equations of the two loops are unfolded by hand, one iteration at a time.\<close>

declare inner_loop.simps [simp del] outer_loop.simps [simp del]

text \<open>Lines 125 to 155 of \<^verbatim>\<open>main\<close>: the vector \<^verbatim>\<open>out_data\<close> of
  \<^verbatim>\<open>output_size * output_size\<close> zeros, filled by the loops; the result is its content
  when \<^verbatim>\<open>stbi_write_bmp\<close> is reached.\<close>

definition main_out_data :: "Cubemap \<Rightarrow> int \<Rightarrow> error + u32 list" where
  "main_out_data cm output_size =
     (case int_result (output_size * output_size) of
        Inl e \<Rightarrow> Inl e
      | Inr n \<Rightarrow> outer_loop cm output_size 0 (replicate (nat n) 0))"

subsection \<open>Loaded cubemaps\<close>




subsection \<open>The specification's wording of the classification\<close>





subsection \<open>A cubemap to compute with\<close>

text \<open>Six faces of two by two texels. The texels of face number \<open>k\<close> are
  \<open>10 k\<close>, \<open>10 k + 1\<close>, \<open>10 k + 2\<close>, \<open>10 k + 3\<close> in raster order.\<close>

definition example_image :: "u32 \<Rightarrow> Image" where
  "example_image k = \<lparr>width = 2, height = 2, data = [k, k + 1, k + 2, k + 3]\<rparr>"

definition example_cubemap :: Cubemap where
  "example_cubemap = \<lparr>faces = (\<lambda>face. example_image (word_of_int (10 * face_value face)))\<rparr>"

section \<open>The program in binary32\<close>

subsection \<open>Binary32 values and rounding\<close>

text \<open>A \<^verbatim>\<open>float\<close>: a finite value, given by the real number it denotes, one of the two
  infinities, or NaN.\<close>

datatype f32 = Fin real | PInf | NInf | NaN

text \<open>The exponent \<open>k\<close> with \<open>2 ^ k \<le> \<bar>x\<bar> < 2 ^ (k + 1)\<close>.\<close>

definition binade :: "real \<Rightarrow> int" where
  "binade x = \<lfloor>log 2 \<bar>x\<bar>\<rfloor>"

text \<open>The nearest integer; of two nearest ones, the even one.\<close>

definition round_half_even :: "real \<Rightarrow> int" where
  "round_half_even y =
     (let f = \<lfloor>y\<rfloor> in
      if y - of_int f < 1 / 2 then f
      else if 1 / 2 < y - of_int f then f + 1
      else if even f then f else f + 1)"

text \<open>Rounding to binary32. The significand has 24 bits, so the spacing of the
  binary32 numbers around \<open>x\<close> is \<open>2 ^ (k - 23)\<close>, and \<open>2 ^ (- 149)\<close> in the subnormal
  range; \<open>x\<close> is rounded to the nearest multiple of the spacing. A result of magnitude
  \<open>2 ^ 128\<close> or more overflows to the infinity of the sign of \<open>x\<close>.\<close>

definition round32 :: "real \<Rightarrow> f32" where
  "round32 x =
     (if x = 0 then Fin 0
      else
        let e = max (binade x - 23) (- 149);
            r = of_int (round_half_even (x / 2 powi e)) * 2 powi e
        in if 2 ^ 128 \<le> \<bar>r\<bar> then (if 0 < x then PInf else NInf) else Fin r)"

subsection \<open>Binary32 operations\<close>

text \<open>Negation and \<^verbatim>\<open>std::abs\<close> are exact.\<close>

fun fneg :: "f32 \<Rightarrow> f32" where
  "fneg (Fin a) = Fin (- a)"
| "fneg PInf = NInf"
| "fneg NInf = PInf"
| "fneg NaN = NaN"

fun fabs :: "f32 \<Rightarrow> f32" where
  "fabs (Fin a) = Fin \<bar>a\<bar>"
| "fabs PInf = PInf"
| "fabs NInf = PInf"
| "fabs NaN = NaN"

text \<open>The sign, for the infinities that a product or a quotient returns.\<close>

fun is_neg :: "f32 \<Rightarrow> bool" where
  "is_neg (Fin a) = (a < 0)"
| "is_neg NInf = True"
| "is_neg PInf = False"
| "is_neg NaN = False"

text \<open>The comparisons \<^verbatim>\<open>>=\<close> and \<^verbatim>\<open><\<close>; with NaN on either side both are false.\<close>

fun fge :: "f32 \<Rightarrow> f32 \<Rightarrow> bool" where
  "fge (Fin a) (Fin b) = (b \<le> a)"
| "fge NaN y = False"
| "fge x NaN = False"
| "fge PInf y = True"
| "fge x NInf = True"
| "fge x y = False"

fun flt :: "f32 \<Rightarrow> f32 \<Rightarrow> bool" where
  "flt (Fin a) (Fin b) = (a < b)"
| "flt NaN y = False"
| "flt x NaN = False"
| "flt PInf y = False"
| "flt x NInf = False"
| "flt x y = True"

text \<open>Sum, difference, product, quotient and square root: the exact result, rounded.
  On infinities and NaN they follow IEEE 754; a quotient by zero is an infinity, and
  \<open>0 / 0\<close> is NaN.\<close>

fun fadd :: "f32 \<Rightarrow> f32 \<Rightarrow> f32" where
  "fadd (Fin a) (Fin b) = round32 (a + b)"
| "fadd NaN y = NaN"
| "fadd x NaN = NaN"
| "fadd PInf NInf = NaN"
| "fadd NInf PInf = NaN"
| "fadd PInf y = PInf"
| "fadd NInf y = NInf"
| "fadd x PInf = PInf"
| "fadd x NInf = NInf"

definition fsub :: "f32 \<Rightarrow> f32 \<Rightarrow> f32" where
  "fsub x y = fadd x (fneg y)"

fun fmul :: "f32 \<Rightarrow> f32 \<Rightarrow> f32" where
  "fmul (Fin a) (Fin b) = round32 (a * b)"
| "fmul NaN y = NaN"
| "fmul x NaN = NaN"
| "fmul x y =
     (if x = Fin 0 \<or> y = Fin 0 then NaN else if is_neg x = is_neg y then PInf else NInf)"

fun fdiv :: "f32 \<Rightarrow> f32 \<Rightarrow> f32" where
  "fdiv (Fin a) (Fin b) =
     (if b = 0 then (if a = 0 then NaN else if 0 < a then PInf else NInf)
      else round32 (a / b))"
| "fdiv NaN y = NaN"
| "fdiv x NaN = NaN"
| "fdiv (Fin a) y = Fin 0"
| "fdiv x (Fin b) = (if is_neg x = (b < 0) then PInf else NInf)"
| "fdiv x y = NaN"

fun fsqrt :: "f32 \<Rightarrow> f32" where
  "fsqrt (Fin a) = (if a < 0 then NaN else round32 (sqrt a))"
| "fsqrt PInf = PInf"
| "fsqrt NInf = NaN"
| "fsqrt NaN = NaN"

text \<open>The conversion of an \<^verbatim>\<open>int\<close> operand to \<^verbatim>\<open>float\<close>, which rounds above
  \<open>2 ^ 24\<close>, and \<^verbatim>\<open>static_cast<int>\<close>, undefined on infinities and NaN.\<close>

definition float_of_int :: "int \<Rightarrow> f32" where
  "float_of_int i = round32 (real_of_int i)"

fun float_to_int32 :: "f32 \<Rightarrow> error + int" where
  "float_to_int32 (Fin a) = float_to_int a"
| "float_to_int32 x = Inl CastOutOfRange"

subsection \<open>Cubemap store in binary32\<close>

text \<open>\<^verbatim>\<open>Cubemap::computeTexCoords\<close>, lines 68 to 100, stage by stage as in the exact
  model. With a NaN among the components every comparison of lines 73 to 80 is false
  and \<^verbatim>\<open>major_axis\<close> is read unassigned.\<close>

definition select_axis_f32 :: "f32 \<Rightarrow> f32 \<Rightarrow> f32 \<Rightarrow> error + int" where
  "select_axis_f32 x y z =
     (let a = [fabs x, fabs y, fabs z] in
      if fge (a ! 0) (a ! 1) \<and> fge (a ! 0) (a ! 2) then Inr 0
      else if fge (a ! 1) (a ! 0) \<and> fge (a ! 1) (a ! 2) then Inr 1
      else if fge (a ! 2) (a ! 0) \<and> fge (a ! 2) (a ! 1) then Inr 2
      else Inl UninitializedRead)"

definition face_index_f32 :: "f32 \<Rightarrow> f32 \<Rightarrow> f32 \<Rightarrow> int \<Rightarrow> int" where
  "face_index_f32 x y z major_axis =
     (let v = [x, y, z] in
      if flt (v ! nat major_axis) (Fin 0) then major_axis * 2 + 1 else major_axis * 2)"

definition face_projection_f32 :: "f32 \<Rightarrow> f32 \<Rightarrow> f32 \<Rightarrow> int \<Rightarrow> error + (f32 \<times> f32 \<times> f32)" where
  "face_projection_f32 x y z major_axis =
     (let a = [fabs x, fabs y, fabs z] in
      if major_axis = 0 then Inr (fneg z, fneg y, a ! 0)
      else if major_axis = 1 then Inr (z, fneg y, a ! 0)
      else if major_axis = 2 then Inr (x, z, a ! 1)
      else if major_axis = 3 then Inr (x, fneg z, a ! 1)
      else if major_axis = 4 then Inr (x, fneg y, a ! 2)
      else if major_axis = 5 then Inr (fneg x, fneg y, a ! 2)
      else Inl UninitializedRead)"

text \<open>Lines 97 to 99: the quotient, the sum and the product are rounded one after the
  other.\<close>

definition computeTexCoords_f32 :: "f32 \<Rightarrow> f32 \<Rightarrow> f32 \<Rightarrow> error + (CubeFace \<times> f32 \<times> f32)" where
  "computeTexCoords_f32 x y z =
     (case select_axis_f32 x y z of
        Inl e \<Rightarrow> Inl e
      | Inr axis \<Rightarrow>
          let major_axis = face_index_f32 x y z axis in
          (case face_projection_f32 x y z major_axis of
             Inl e \<Rightarrow> Inl e
           | Inr (tmp_s, tmp_t, m) \<Rightarrow>
               (case CubeFace_of major_axis of
                  None \<Rightarrow> Inl CastOutOfRange
                | Some out_face \<Rightarrow>
                    Inr (out_face,
                         fmul (Fin 0.5) (fadd (fdiv tmp_s m) (Fin 1)),
                         fmul (Fin 0.5) (fadd (fdiv tmp_t m) (Fin 1))))))"

text \<open>\<^verbatim>\<open>Cubemap::sampleFace\<close>, lines 102 to 109. In \<^verbatim>\<open>s * face_img.width\<close> the width is
  converted to \<^verbatim>\<open>float\<close>, the product is rounded, and the rounded product is converted
  to \<^verbatim>\<open>int\<close>.\<close>

definition texel_coord_f32 :: "f32 \<Rightarrow> int \<Rightarrow> error + int" where
  "texel_coord_f32 s extent =
     (case float_to_int32 (fmul s (float_of_int extent)) of
        Inl e \<Rightarrow> Inl e
      | Inr i \<Rightarrow>
          (case int_result (extent - 1) of
             Inl e \<Rightarrow> Inl e
           | Inr d \<Rightarrow> Inr (min i d)))"

definition sampleFace_f32 :: "Cubemap \<Rightarrow> CubeFace \<Rightarrow> f32 \<Rightarrow> f32 \<Rightarrow> error + u32" where
  "sampleFace_f32 cm face s t =
     (if \<not> face_value face < face_value NUM_FACES then Inl OutOfBoundsAccess
      else
        let face_img = faces cm face in
        case texel_coord_f32 s (sint (width face_img)) of
          Inl e \<Rightarrow> Inl e
        | Inr x \<Rightarrow>
            (case texel_coord_f32 t (sint (height face_img)) of
               Inl e \<Rightarrow> Inl e
             | Inr y \<Rightarrow> readTexel cm face x y))"

subsection \<open>Spheremap generator in binary32\<close>

text \<open>\<^verbatim>\<open>unlerp\<close>, lines 112 to 114: both operands are converted, the sum and the quotient
  are rounded.\<close>

definition unlerp_f32 :: "int \<Rightarrow> int \<Rightarrow> f32" where
  "unlerp_f32 val mx = fdiv (fadd (float_of_int val) (Fin 0.5)) (float_of_int mx)"

text \<open>Line 136, then lines 135 to 146, every operation in the order of the source; the
  loop body, lines 132 to 152; the two loops and the buffer, as in the exact model.\<close>

definition rev_p_f32 :: "f32 \<Rightarrow> f32 \<Rightarrow> f32" where
  "rev_p_f32 s t =
     fsub (fmul (Fin 16) (fsub (fadd (fsub s (fmul s s)) t) (fmul t t))) (Fin 4)"

definition direction_f32 :: "f32 \<Rightarrow> f32 \<Rightarrow> f32 \<times> f32 \<times> f32" where
  "direction_f32 s t =
     (if flt (rev_p_f32 s t) (Fin 0) then (Fin 0, Fin 0, Fin (- 1))
      else
        let rev_p_sqrt = fsqrt (rev_p_f32 s t) in
        (fmul rev_p_sqrt (fsub (fmul (Fin 2) s) (Fin 1)),
         fmul rev_p_sqrt (fneg (fsub (fmul (Fin 2) t) (Fin 1))),
         fsub (fmul (Fin 8) (fsub (fadd (fsub s (fmul s s)) t) (fmul t t))) (Fin 3)))"

definition pixel_color_f32 :: "Cubemap \<Rightarrow> int \<Rightarrow> int \<Rightarrow> int \<Rightarrow> error + u32" where
  "pixel_color_f32 cm output_size x y =
     (let s = unlerp_f32 x output_size; t = unlerp_f32 y output_size in
      case direction_f32 s t of
        (vx, vy, vz) \<Rightarrow>
          (case computeTexCoords_f32 vx vy vz of
             Inl e \<Rightarrow> Inl e
           | Inr (cube_face, tex_s, tex_t) \<Rightarrow> sampleFace_f32 cm cube_face tex_s tex_t))"

function inner_loop_f32 :: "Cubemap \<Rightarrow> int \<Rightarrow> int \<Rightarrow> int \<Rightarrow> u32 list \<Rightarrow> error + u32 list" where
  "inner_loop_f32 cm output_size y x out_data =
     (if x < output_size then
        (case pixel_color_f32 cm output_size x y of
           Inl e \<Rightarrow> Inl e
         | Inr c \<Rightarrow>
             (case store_pixel out_data output_size x y c of
                Inl e \<Rightarrow> Inl e
              | Inr out_data' \<Rightarrow> inner_loop_f32 cm output_size y (x + 1) out_data'))
      else Inr out_data)"
  by pat_completeness auto

termination
  by (relation "measure (\<lambda>(cm, output_size, y, x, out_data). nat (output_size - x))") auto

function outer_loop_f32 :: "Cubemap \<Rightarrow> int \<Rightarrow> int \<Rightarrow> u32 list \<Rightarrow> error + u32 list" where
  "outer_loop_f32 cm output_size y out_data =
     (if y < output_size then
        (case inner_loop_f32 cm output_size y 0 out_data of
           Inl e \<Rightarrow> Inl e
         | Inr out_data' \<Rightarrow> outer_loop_f32 cm output_size (y + 1) out_data')
      else Inr out_data)"
  by pat_completeness auto

termination
  by (relation "measure (\<lambda>(cm, output_size, y, out_data). nat (output_size - y))") auto

declare inner_loop_f32.simps [simp del] outer_loop_f32.simps [simp del]

definition main_out_data_f32 :: "Cubemap \<Rightarrow> int \<Rightarrow> error + u32 list" where
  "main_out_data_f32 cm output_size =
     (case int_result (output_size * output_size) of
        Inl e \<Rightarrow> Inl e
      | Inr n \<Rightarrow> outer_loop_f32 cm output_size 0 (replicate (nat n) 0))"

subsection \<open>The specification's wording of the classification, in binary32\<close>







text \<open>The real numbers that are binary32 numbers.\<close>

definition representable :: "real \<Rightarrow> bool" where
  "representable r \<longleftrightarrow> round32 r = Fin r"

text \<open>Six faces of \<open>n\<close> by one texels; texel \<open>i\<close> of each has the colour \<open>i\<close>.\<close>

definition example_strip :: "int \<Rightarrow> Cubemap" where
  "example_strip n =
     \<lparr>faces = (\<lambda>face. \<lparr>width = word_of_int n, height = 1, data = map of_nat [0..<nat n]\<rparr>)\<rparr>"

section \<open>Face classification\<close>

lemma select_axis_cases:
  "(select_axis x y z = Inr 0 \<and> \<bar>y\<bar> \<le> \<bar>x\<bar> \<and> \<bar>z\<bar> \<le> \<bar>x\<bar>) \<or>
   (select_axis x y z = Inr 1 \<and> \<bar>x\<bar> < \<bar>y\<bar> \<and> \<bar>z\<bar> \<le> \<bar>y\<bar>) \<or>
   (select_axis x y z = Inr 2 \<and> \<bar>x\<bar> < \<bar>z\<bar> \<and> \<bar>y\<bar> < \<bar>z\<bar>)"
  unfolding select_axis_def Let_def by (simp; linarith)

section \<open>Sampling a face\<close>

lemma sint_int_range: "INT_MIN \<le> sint (w :: 32 word) \<and> sint w \<le> INT_MAX"
  using sint_ge [of w] sint_lt [of w] by (simp add: INT_MIN_def INT_MAX_def)

lemma face_value_valid: "face \<noteq> NUM_FACES \<Longrightarrow> face_value face < face_value NUM_FACES"
  by (cases face) simp_all



section \<open>Reading a texel\<close>

text \<open>An invalid face and a coordinate at or beyond the width or the height fail an
  assertion.\<close>

lemma readTexel_asserts:
  assumes "face = NUM_FACES \<or> sint (width (faces cm face)) \<le> x \<or> sint (height (faces cm face)) \<le> y"
  shows "readTexel cm face x y = Inl AssertionFailed"
  using assms by (auto simp: readTexel_def Let_def)

text \<open>
  C8. A call of \<open>readTexel\<close> with a negative coordinate is not stopped by an assertion:
  on a face of two by two texels, \<open>(- 1, 1)\<close> reads the texel at \<open>(1, 0)\<close>, and \<open>(- 1, 0)\<close>
  and \<open>(0, - 1)\<close> read before the start of the buffer.
\<close>

theorem readTexel_negative_coordinate:
  "readTexel example_cubemap FACE_POS_X (- 1) 1 = Inr 1 \<and>
   readTexel example_cubemap FACE_POS_X (- 1) 0 = Inl OutOfBoundsAccess \<and>
   readTexel example_cubemap FACE_POS_X 0 (- 1) = Inl OutOfBoundsAccess"
  by (simp add: example_cubemap_def example_image_def int_result_def INT_MIN_def INT_MAX_def
      readTexel_def)

section \<open>Canonical directions\<close>

text \<open>
  C6. For each of the six canonical directions \<open>(1,0,0)\<close>, \<open>(-1,0,0)\<close>, \<open>(0,1,0)\<close>,
  \<open>(0,-1,0)\<close>, \<open>(0,0,1)\<close>, \<open>(0,0,-1)\<close>, \<open>computeTexCoords\<close> selects the corresponding
  face (\<open>+X\<close>, \<open>-X\<close>, \<open>+Y\<close>, \<open>-Y\<close>, \<open>+Z\<close>, \<open>-Z\<close>) and produces \<open>(s, t) = (0.5, 0.5)\<close>.
\<close>

theorem canonical_directions:
  "computeTexCoords 1 0 0 = Inr (FACE_POS_X, 0.5, 0.5) \<and>
   computeTexCoords (- 1) 0 0 = Inr (FACE_NEG_X, 0.5, 0.5) \<and>
   computeTexCoords 0 1 0 = Inr (FACE_POS_Y, 0.5, 0.5) \<and>
   computeTexCoords 0 (- 1) 0 = Inr (FACE_NEG_Y, 0.5, 0.5) \<and>
   computeTexCoords 0 0 1 = Inr (FACE_POS_Z, 0.5, 0.5) \<and>
   computeTexCoords 0 0 (- 1) = Inr (FACE_NEG_Z, 0.5, 0.5)"
  by (simp add: computeTexCoords_def select_axis_def face_index_def face_projection_def
      CubeFace_of_def float_div_def)

section \<open>The spheremap generator\<close>

subsection \<open>Directions and texel coordinates\<close>

text \<open>The direction of a pixel is never the zero vector: its third component vanishes
  only where \<open>rev_p = 2\<close>, and there the first two vanish only at \<open>s = t = 1 / 2\<close>, where
  \<open>rev_p = 4\<close>.\<close>

lemma direction_nonzero: "direction s t \<noteq> (0, 0, 0)"
proof (cases "rev_p s t < 0")
  case True
  then show ?thesis by (simp add: direction_def)
next
  case False
  define q where "q = s - s * s + t - t * t"
  have rp: "rev_p s t = 16 * q - 4"
    by (simp add: rev_p_def q_def)
  show ?thesis
  proof
    assume "direction s t = (0, 0, 0)"
    with False have a: "sqrt (rev_p s t) * (2 * s - 1) = 0"
      and b: "sqrt (rev_p s t) * - (2 * t - 1) = 0"
      and c: "8 * q - 3 = 0"
      by (simp_all add: direction_def Let_def q_def)
    from c have q: "q = 3 / 8" by simp
    with rp have "rev_p s t = 2" by simp
    then have "sqrt (rev_p s t) \<noteq> 0" by simp
    with a b have s: "s = 1 / 2" and t: "t = 1 / 2" by simp_all
    have "q = 1 / 2" unfolding q_def s t by simp
    with q show False by simp
  qed
qed

lemma half_range:
  assumes "\<bar>a\<bar> \<le> m" and "0 < m"
  shows "0 \<le> 0.5 * (a / m + 1) \<and> 0.5 * (a / m + 1) \<le> (1 :: real)"
proof -
  have "- 1 \<le> a / m" "a / m \<le> 1"
    using assms by (simp_all add: pos_le_divide_eq pos_divide_le_eq abs_le_iff)
  then show ?thesis by simp
qed

lemma classify_nonzero:
  assumes "(x, y, z) \<noteq> (0, 0, 0)"
  shows "\<exists>tmp_s tmp_t m face.
           0 < m \<and> \<bar>tmp_s\<bar> \<le> m \<and> \<bar>tmp_t\<bar> \<le> m \<and> face \<noteq> NUM_FACES \<and>
           computeTexCoords x y z = Inr (face, 0.5 * (tmp_s / m + 1), 0.5 * (tmp_t / m + 1))"
proof -
  consider
    (X) "select_axis x y z = Inr 0" "\<bar>y\<bar> \<le> \<bar>x\<bar>" "\<bar>z\<bar> \<le> \<bar>x\<bar>"
  | (Y) "select_axis x y z = Inr 1" "\<bar>x\<bar> < \<bar>y\<bar>" "\<bar>z\<bar> \<le> \<bar>y\<bar>"
  | (Z) "select_axis x y z = Inr 2" "\<bar>x\<bar> < \<bar>z\<bar>" "\<bar>y\<bar> < \<bar>z\<bar>"
    using select_axis_cases [of x y z] by blast
  then show ?thesis
  proof cases
    case X
    with assms have m: "0 < \<bar>x\<bar>" by auto
    have eq: "computeTexCoords x y z =
        Inr (if x < 0 then FACE_NEG_X else FACE_POS_X,
             0.5 * ((if x < 0 then z else - z) / \<bar>x\<bar> + 1), 0.5 * (- y / \<bar>x\<bar> + 1))"
      using X(1) m
      by (simp add: computeTexCoords_def face_index_def face_projection_def
          CubeFace_of_def float_div_def)
    show ?thesis
      using m X(2,3) eq
      by (intro exI [of _ "if x < 0 then z else - z"] exI [of _ "- y"] exI [of _ "\<bar>x\<bar>"]
          exI [of _ "if x < 0 then FACE_NEG_X else FACE_POS_X"]) auto
  next
    case Y
    then have m: "0 < \<bar>y\<bar>" by linarith
    have eq: "computeTexCoords x y z =
        Inr (if y < 0 then FACE_NEG_Y else FACE_POS_Y,
             0.5 * (x / \<bar>y\<bar> + 1), 0.5 * ((if y < 0 then - z else z) / \<bar>y\<bar> + 1))"
      using Y(1) m
      by (simp add: computeTexCoords_def face_index_def face_projection_def
          CubeFace_of_def float_div_def)
    show ?thesis
      using m Y(2,3) eq
      by (intro exI [of _ x] exI [of _ "if y < 0 then - z else z"] exI [of _ "\<bar>y\<bar>"]
          exI [of _ "if y < 0 then FACE_NEG_Y else FACE_POS_Y"]) auto
  next
    case Z
    then have m: "0 < \<bar>z\<bar>" by linarith
    have eq: "computeTexCoords x y z =
        Inr (if z < 0 then FACE_NEG_Z else FACE_POS_Z,
             0.5 * ((if z < 0 then - x else x) / \<bar>z\<bar> + 1), 0.5 * (- y / \<bar>z\<bar> + 1))"
      using Z(1) m
      by (simp add: computeTexCoords_def face_index_def face_projection_def
          CubeFace_of_def float_div_def)
    show ?thesis
      using m Z(2,3) eq
      by (intro exI [of _ "if z < 0 then - x else x"] exI [of _ "- y"] exI [of _ "\<bar>z\<bar>"]
          exI [of _ "if z < 0 then FACE_NEG_Z else FACE_POS_Z"]) auto
  qed
qed

lemma computeTexCoords_unit_square:
  assumes "(x, y, z) \<noteq> (0, 0, 0)"
  shows "\<exists>face s t. computeTexCoords x y z = Inr (face, s, t) \<and> face \<noteq> NUM_FACES \<and>
           0 \<le> s \<and> s \<le> 1 \<and> 0 \<le> t \<and> t \<le> 1"
proof -
  from classify_nonzero [OF assms] obtain tmp_s tmp_t m face where
    m: "0 < m" and s: "\<bar>tmp_s\<bar> \<le> m" and t: "\<bar>tmp_t\<bar> \<le> m" and f: "face \<noteq> NUM_FACES"
    and eq: "computeTexCoords x y z = Inr (face, 0.5 * (tmp_s / m + 1), 0.5 * (tmp_t / m + 1))"
    by blast
  from half_range [OF s m] half_range [OF t m] f eq show ?thesis
    by blast
qed

lemma texel_coord_unit:
  assumes "0 \<le> s" and "s \<le> 1" and "0 < n" and "n \<le> INT_MAX"
  shows "\<exists>i. texel_coord s n = Inr i \<and> 0 \<le> i \<and> i < n"
proof -
  have nn: "0 \<le> s * real_of_int n"
    using assms by simp
  have "s * real_of_int n \<le> 1 * real_of_int n"
    using assms by (intro mult_right_mono) simp_all
  then have up: "\<lfloor>s * real_of_int n\<rfloor> \<le> n"
    by (simp add: floor_le_iff)
  have lo: "0 \<le> \<lfloor>s * real_of_int n\<rfloor>"
    using nn by simp
  have tr: "trunc_toward_zero (s * real_of_int n) = \<lfloor>s * real_of_int n\<rfloor>"
    using nn by (simp add: trunc_toward_zero_def)
  have "float_to_int (s * real_of_int n) = Inr \<lfloor>s * real_of_int n\<rfloor>"
    unfolding float_to_int_def tr Let_def using lo up assms(4) by (simp only: INT_MIN_def) simp
  moreover have "int_result (n - 1) = Inr (n - 1)"
    using assms by (simp add: int_result_def INT_MIN_def)
  ultimately have "texel_coord s n = Inr (min \<lfloor>s * real_of_int n\<rfloor> (n - 1))"
    by (simp add: texel_coord_def)
  moreover have "0 \<le> min \<lfloor>s * real_of_int n\<rfloor> (n - 1)" "min \<lfloor>s * real_of_int n\<rfloor> (n - 1) < n"
    using lo assms(3) by simp_all
  ultimately show ?thesis by blast
qed

subsection \<open>One pixel\<close>



lemma unlerp_value: "n \<noteq> 0 \<Longrightarrow> unlerp v n = Inr ((real_of_int v + 0.5) / real_of_int n)"
  by (simp add: unlerp_def float_div_def)

lemma pixel_color_reads:
  assumes "output_size \<noteq> 0"
    and "\<And>face. face \<noteq> NUM_FACES \<Longrightarrow>
           0 < sint (width (faces cm face)) \<and> 0 < sint (height (faces cm face))"
  shows "\<exists>face xi yi. face \<noteq> NUM_FACES \<and>
           0 \<le> xi \<and> xi < sint (width (faces cm face)) \<and>
           0 \<le> yi \<and> yi < sint (height (faces cm face)) \<and>
           pixel_color cm output_size x y = readTexel cm face xi yi"
proof -
  obtain s t where s: "unlerp x output_size = Inr s" and t: "unlerp y output_size = Inr t"
    using assms(1) by (simp add: unlerp_value)
  obtain vx vy vz where d: "direction s t = (vx, vy, vz)"
    by (cases "direction s t") auto
  then have "(vx, vy, vz) \<noteq> (0, 0, 0)"
    using direction_nonzero [of s t] by simp
  from computeTexCoords_unit_square [OF this] obtain face tex_s tex_t where
    c: "computeTexCoords vx vy vz = Inr (face, tex_s, tex_t)" and f: "face \<noteq> NUM_FACES"
    and r: "0 \<le> tex_s" "tex_s \<le> 1" "0 \<le> tex_t" "tex_t \<le> 1"
    by (elim exE conjE)
  have pos: "0 < sint (width (faces cm face))" "0 < sint (height (faces cm face))"
    using assms(2) [OF f] by simp_all
  have mx: "sint (width (faces cm face)) \<le> INT_MAX" "sint (height (faces cm face)) \<le> INT_MAX"
    by (simp_all add: sint_int_range)
  from texel_coord_unit [OF r(1,2) pos(1) mx(1)] obtain xi where
    xi: "texel_coord tex_s (sint (width (faces cm face))) = Inr xi"
    "0 \<le> xi" "xi < sint (width (faces cm face))"
    by (elim exE conjE)
  from texel_coord_unit [OF r(3,4) pos(2) mx(2)] obtain yi where
    yi: "texel_coord tex_t (sint (height (faces cm face))) = Inr yi"
    "0 \<le> yi" "yi < sint (height (faces cm face))"
    by (elim exE conjE)
  have "sampleFace cm face tex_s tex_t = readTexel cm face xi yi"
    using face_value_valid [OF f] xi(1) yi(1) by (simp add: sampleFace_def Let_def)
  then have "pixel_color cm output_size x y = readTexel cm face xi yi"
    by (simp add: pixel_color_def s t d c)
  with f xi(2,3) yi(2,3) show ?thesis
    by (intro exI [of _ face] exI [of _ xi] exI [of _ yi]) simp
qed


subsection \<open>The loops\<close>









subsection \<open>The example cubemap\<close>

lemma example_faces:
  "sint (width (faces example_cubemap face)) = 2"
  "sint (height (faces example_cubemap face)) = 2"
  by (simp_all add: example_cubemap_def example_image_def)



subsection \<open>The generated image\<close>





text \<open>For a negative \<open>n\<close> the loops do not run, and the buffer keeps its \<open>n * n\<close>
  zeros.\<close>

lemma main_out_data_negative:
  assumes "n < 0" and "n * n \<le> INT_MAX"
  shows "main_out_data cm n = Inr (replicate (nat (n * n)) 0)"
proof -
  have "- 2147483648 \<le> n * n"
    by (rule order_trans [OF _ zero_le_square]) simp
  then have "int_result (n * n) = Inr (n * n)"
    using assms(2) by (simp add: int_result_def INT_MIN_def)
  then show ?thesis
    using assms(1) by (simp add: main_out_data_def outer_loop.simps [of cm n 0])
qed

text \<open>
  C10. In exact arithmetic every direction the generator computes is different from
  \<open>(0, 0, 0)\<close>; for every such direction \<open>computeTexCoords\<close> returns \<open>s\<close> and \<open>t\<close> in
  \<open>[0, 1]\<close>; for these and a positive dimension the texel coordinate of \<open>sampleFace\<close> lies
  in \<open>[0, dimension)\<close>; so every pixel of the generator reads a texel \<open>(xi, yi)\<close> with
  \<open>0 \<le> xi < width\<close> and \<open>0 \<le> yi < height\<close>, never one with a negative coordinate.
\<close>

theorem generated_coordinates:
  "direction s t \<noteq> (0, 0, 0) \<and>
   ((x, y, z) \<noteq> (0, 0, 0) \<longrightarrow>
      (\<exists>face tex_s tex_t. computeTexCoords x y z = Inr (face, tex_s, tex_t) \<and>
         face \<noteq> NUM_FACES \<and> 0 \<le> tex_s \<and> tex_s \<le> 1 \<and> 0 \<le> tex_t \<and> tex_t \<le> 1)) \<and>
   (0 \<le> u \<and> u \<le> 1 \<and> 0 < sint (w :: 32 word) \<longrightarrow>
      (\<exists>i. texel_coord u (sint w) = Inr i \<and> 0 \<le> i \<and> i < sint w)) \<and>
   (output_size \<noteq> 0 \<and>
    (\<forall>face. face \<noteq> NUM_FACES \<longrightarrow>
       0 < sint (width (faces cm face)) \<and> 0 < sint (height (faces cm face))) \<longrightarrow>
      (\<exists>face xi yi. face \<noteq> NUM_FACES \<and>
         0 \<le> xi \<and> xi < sint (width (faces cm face)) \<and>
         0 \<le> yi \<and> yi < sint (height (faces cm face)) \<and>
         pixel_color cm output_size px py = readTexel cm face xi yi))"
proof (intro conjI impI)
  show "direction s t \<noteq> (0, 0, 0)"
    by (rule direction_nonzero)
next
  assume "(x, y, z) \<noteq> (0, 0, 0)"
  then show "\<exists>face tex_s tex_t. computeTexCoords x y z = Inr (face, tex_s, tex_t) \<and>
         face \<noteq> NUM_FACES \<and> 0 \<le> tex_s \<and> tex_s \<le> 1 \<and> 0 \<le> tex_t \<and> tex_t \<le> 1"
    by (rule computeTexCoords_unit_square)
next
  assume "0 \<le> u \<and> u \<le> 1 \<and> 0 < sint w"
  then show "\<exists>i. texel_coord u (sint w) = Inr i \<and> 0 \<le> i \<and> i < sint w"
    using sint_int_range [of w] by (intro texel_coord_unit) simp_all
next
  assume a: "output_size \<noteq> 0 \<and>
    (\<forall>face. face \<noteq> NUM_FACES \<longrightarrow>
       0 < sint (width (faces cm face)) \<and> 0 < sint (height (faces cm face)))"
  show "\<exists>face xi yi. face \<noteq> NUM_FACES \<and>
         0 \<le> xi \<and> xi < sint (width (faces cm face)) \<and>
         0 \<le> yi \<and> yi < sint (height (faces cm face)) \<and>
         pixel_color cm output_size px py = readTexel cm face xi yi"
  proof (rule pixel_color_reads)
    show "output_size \<noteq> 0" using a by simp
    show "0 < sint (width (faces cm face)) \<and> 0 < sint (height (faces cm face))"
      if "face \<noteq> NUM_FACES" for face
      using a that by simp
  qed
qed

theorem generated_coordinates_witness:
  "direction (1 / 4) (1 / 4) \<noteq> (0, 0, 0) \<and>
   ((1 :: real), (2 :: real), (- 4 :: real)) \<noteq> (0, 0, 0) \<and>
   (\<exists>face tex_s tex_t. computeTexCoords 1 2 (- 4) = Inr (face, tex_s, tex_t) \<and>
      face \<noteq> NUM_FACES \<and> 0 \<le> tex_s \<and> tex_s \<le> 1 \<and> 0 \<le> tex_t \<and> tex_t \<le> 1) \<and>
   (\<exists>i. texel_coord (3 / 4) (sint (2 :: 32 word)) = Inr i \<and> 0 \<le> i \<and> i < sint (2 :: 32 word)) \<and>
   (\<exists>face xi yi. face \<noteq> NUM_FACES \<and>
      0 \<le> xi \<and> xi < sint (width (faces example_cubemap face)) \<and>
      0 \<le> yi \<and> yi < sint (height (faces example_cubemap face)) \<and>
      pixel_color example_cubemap 1 0 0 = readTexel example_cubemap face xi yi)"
proof -
  note t = generated_coordinates [where s = "1 / 4" and t = "1 / 4" and x = 1 and y = 2
      and z = "- 4" and u = "3 / 4" and w = 2 and output_size = 1 and cm = example_cubemap
      and px = 0 and py = 0]
  have h2: "((1 :: real), (2 :: real), (- 4 :: real)) \<noteq> (0, 0, 0)"
    by simp
  have h3: "(0 :: real) \<le> 3 / 4 \<and> (3 / 4 :: real) \<le> 1 \<and> 0 < sint (2 :: 32 word)"
    by simp
  have h4: "(1 :: int) \<noteq> 0 \<and>
    (\<forall>face. face \<noteq> NUM_FACES \<longrightarrow>
       0 < sint (width (faces example_cubemap face)) \<and>
       0 < sint (height (faces example_cubemap face)))"
    by (simp add: example_faces)
  from t h2 h3 h4 show ?thesis
    by blast
qed

subsection \<open>The corners of the image\<close>






section \<open>Rounding to binary32\<close>

subsection \<open>The exponent and the nearest integer\<close>

lemma binade_bounds:
  assumes "x \<noteq> 0"
  shows "2 powi binade x \<le> \<bar>x\<bar> \<and> \<bar>x\<bar> < 2 powi (binade x + 1)"
proof -
  have pos: "0 < \<bar>x\<bar>" using assms by simp
  have "\<lfloor>log 2 \<bar>x\<bar>\<rfloor> = binade x" by (simp add: binade_def)
  then have "2 powr real_of_int (binade x) \<le> \<bar>x\<bar> \<and> \<bar>x\<bar> < 2 powr (real_of_int (binade x) + 1)"
    using floor_log_eq_powr_iff [OF pos, of 2 "binade x"] by simp
  moreover have "real_of_int (binade x) + 1 = real_of_int (binade x + 1)" by simp
  ultimately show ?thesis
    by (simp only: powr_real_of_int' [of 2, simplified]) 
qed

lemma binade_unique:
  assumes "2 powi k \<le> \<bar>x\<bar>" and "\<bar>x\<bar> < 2 powi (k + 1)"
  shows "binade x = k"
proof -
  have "0 < (2 :: real) powi k" by simp
  with assms(1) have pos: "0 < \<bar>x\<bar>" by linarith
  have "2 powr real_of_int k \<le> \<bar>x\<bar> \<and> \<bar>x\<bar> < 2 powr (real_of_int k + 1)"
    using assms powr_real_of_int' [of 2 k] powr_real_of_int' [of 2 "k + 1"] by simp
  then show ?thesis
    using floor_log_eq_powr_iff [OF pos, of 2 k] by (simp add: binade_def)
qed

lemma round_half_even_error: "\<bar>real_of_int (round_half_even y) - y\<bar> \<le> 1 / 2"
  unfolding round_half_even_def Let_def by (auto; linarith)

lemma round_half_even_of_int [simp]: "round_half_even (real_of_int m) = m"
  by (simp add: round_half_even_def)

lemma round_half_even_ge: "real_of_int n \<le> y \<Longrightarrow> n \<le> round_half_even y"
  unfolding round_half_even_def Let_def by (auto; linarith)

lemma round_half_even_le: "y \<le> real_of_int n \<Longrightarrow> round_half_even y \<le> n"
proof -
  assume a: "y \<le> real_of_int n"
  have "\<lfloor>y\<rfloor> \<le> n" using a by linarith
  show ?thesis
  proof (cases "y = real_of_int n")
    case True then show ?thesis by simp
  next
    case False
    with a have "y < real_of_int n" by simp
    then have "\<lfloor>y\<rfloor> + 1 \<le> n" by linarith
    then show ?thesis
      unfolding round_half_even_def Let_def by auto
  qed
qed

lemma round_half_even_eval:
  "real_of_int m - 1 / 2 < y \<Longrightarrow> y < real_of_int m + 1 / 2 \<Longrightarrow> round_half_even y = m"
  unfolding round_half_even_def Let_def by (auto; linarith)

subsection \<open>Powers of two\<close>

lemma powi_two_pos [simp]: "0 < (2 :: real) powi e"
  by (simp add: zero_less_power_int)

lemma powi_two_add: "(2 :: real) powi (a + b) = 2 powi a * 2 powi b"
  by (simp add: power_int_add)

lemma powi_two_diff: "(2 :: real) powi (a - b) = 2 powi a / 2 powi b"
  by (simp add: power_int_diff)

lemma powi_two_mono: "a \<le> b \<Longrightarrow> (2 :: real) powi a \<le> 2 powi b"
  by (simp add: power_int_increasing)

lemma powi_two_strict: "a < b \<Longrightarrow> (2 :: real) powi a < 2 powi b"
  by (simp add: power_int_strict_increasing)

lemma powi_two_le_D: "(2 :: real) powi a \<le> 2 powi b \<Longrightarrow> a \<le> b"
  using powi_two_strict [of b a] by (cases "a \<le> b") auto

lemma powi_two_less_D: "(2 :: real) powi a < 2 powi b \<Longrightarrow> a < b"
  using powi_two_mono [of b a] by (cases "a < b") auto

lemma powi_two_int: "0 \<le> d \<Longrightarrow> (2 :: real) powi d = real_of_int (2 ^ nat d)"
  by (simp add: power_int_nonneg_exp)

subsection \<open>Rounded values\<close>

text \<open>The rounding of a nonzero \<open>x\<close>, with its exponent named; rounding keeps a bound
  that is a power of two, and the sign.\<close>

lemma round32_anatomy:
  assumes "x \<noteq> 0"
  obtains k e m where
    "2 powi k \<le> \<bar>x\<bar>" and "\<bar>x\<bar> < 2 powi (k + 1)"
    and "e = max (k - 23) (- 149)"
    and "m = round_half_even (x / 2 powi e)"
    and "round32 x =
           (if 2 ^ 128 \<le> \<bar>real_of_int m * 2 powi e\<bar> then (if 0 < x then PInf else NInf)
            else Fin (real_of_int m * 2 powi e))"
proof -
  show ?thesis
    using that [of "binade x" "max (binade x - 23) (- 149)"
        "round_half_even (x / 2 powi (max (binade x - 23) (- 149)))"]
      binade_bounds [OF assms] assms
    by (simp add: round32_def Let_def)
qed

lemma round32_bounded:
  assumes "\<bar>x\<bar> \<le> 2 powi j" and "- 149 \<le> j" and "j \<le> 127"
  shows "\<exists>r. round32 x = Fin r \<and> \<bar>r\<bar> \<le> 2 powi j \<and> (0 \<le> x \<longrightarrow> 0 \<le> r) \<and> (x \<le> 0 \<longrightarrow> r \<le> 0)"
proof (cases "x = 0")
  case True
  then show ?thesis by (simp add: round32_def)
next
  case False
  from round32_anatomy [OF False] obtain k e m where
    lo: "2 powi k \<le> \<bar>x\<bar>" and e: "e = max (k - 23) (- 149)"
    and m: "m = round_half_even (x / 2 powi e)"
    and r: "round32 x =
           (if 2 ^ 128 \<le> \<bar>real_of_int m * 2 powi e\<bar> then (if 0 < x then PInf else NInf)
            else Fin (real_of_int m * 2 powi e))"
    by blast
  have "(2 :: real) powi k \<le> 2 powi j"
    using lo assms(1) by linarith
  then have "k \<le> j" by (rule powi_two_le_D)
  with e assms(2) have ej: "e \<le> j" by simp
  define N :: int where "N = 2 ^ nat (j - e)"
  have N: "real_of_int N = 2 powi (j - e)"
    using ej by (simp add: N_def powi_two_int)
  have Ne: "real_of_int N * 2 powi e = 2 powi j"
    by (simp add: N powi_two_diff)
  define y where "y = x / 2 powi e"
  have "\<bar>y\<bar> = \<bar>x\<bar> / 2 powi e"
    by (simp add: y_def abs_divide)
  also have "\<dots> \<le> 2 powi j / 2 powi e"
    using assms(1) by (intro divide_right_mono) simp_all
  finally have y: "\<bar>y\<bar> \<le> real_of_int N"
    by (simp add: N powi_two_diff)
  then have "y \<le> real_of_int N" "real_of_int (- N) \<le> y"
    by simp_all
  then have mN: "m \<le> N" "- N \<le> m"
    unfolding m y_def [symmetric]
    by (simp_all only: round_half_even_le round_half_even_ge)
  then have "\<bar>real_of_int m\<bar> \<le> real_of_int N"
    by linarith
  then have "\<bar>real_of_int m\<bar> * 2 powi e \<le> real_of_int N * 2 powi e"
    by (intro mult_right_mono) simp_all
  then have bound: "\<bar>real_of_int m * 2 powi e\<bar> \<le> 2 powi j"
    by (simp add: Ne abs_mult)
  have "(2 :: real) powi j \<le> 2 powi 127"
    using assms(3) by (rule powi_two_mono)
  also have "\<dots> < 2 ^ 128" by simp
  finally have fin: "\<not> 2 ^ 128 \<le> \<bar>real_of_int m * 2 powi e\<bar>"
    using bound by linarith
  have pos: "0 \<le> real_of_int m * 2 powi e" if "0 \<le> x"
  proof -
    have "real_of_int 0 \<le> y" using that by (simp add: y_def)
    then have "0 \<le> m" unfolding m y_def [symmetric] by (rule round_half_even_ge)
    then show ?thesis by simp
  qed
  have neg: "real_of_int m * 2 powi e \<le> 0" if "x \<le> 0"
  proof -
    have "y \<le> real_of_int 0" using that by (simp add: y_def divide_nonpos_pos)
    then have "m \<le> 0" unfolding m y_def [symmetric] by (rule round_half_even_le)
    then show ?thesis by (simp add: mult_nonpos_nonneg)
  qed
  show ?thesis
    using r fin bound pos neg by simp
qed

text \<open>Computing a rounding: \<open>m\<close> is the integer nearest to \<open>x\<close> divided by the spacing.
  A number with a significand of 24 bits is its own rounding.\<close>

lemma round32_eval:
  assumes "2 powi k \<le> \<bar>x\<bar>" and "\<bar>x\<bar> < 2 powi (k + 1)"
    and "e = max (k - 23) (- 149)"
    and "real_of_int m - 1 / 2 < x / 2 powi e" and "x / 2 powi e < real_of_int m + 1 / 2"
    and "\<bar>real_of_int m * 2 powi e\<bar> < 2 ^ 128"
  shows "round32 x = Fin (real_of_int m * 2 powi e)"
proof -
  have "0 < (2 :: real) powi k" by simp
  with assms(1) have "0 < \<bar>x\<bar>" by linarith
  then have nz: "x \<noteq> 0" by simp
  have b: "binade x = k"
    using assms(1,2) by (rule binade_unique)
  have m: "round_half_even (x / 2 powi e) = m"
    using assms(4,5) by (rule round_half_even_eval)
  show ?thesis
    using nz assms(6) by (simp add: round32_def Let_def b assms(3) [symmetric] m)
qed

lemma round32_exact_strict:
  assumes "x = real_of_int m0 * 2 powi e0" and "\<bar>m0\<bar> < 2 ^ 24" and "- 149 \<le> e0"
    and "\<bar>x\<bar> < 2 ^ 128"
  shows "round32 x = Fin x"
proof (cases "x = 0")
  case True
  then show ?thesis by (simp add: round32_def)
next
  case False
  from round32_anatomy [OF False] obtain k e m where
    lo: "2 powi k \<le> \<bar>x\<bar>" and e: "e = max (k - 23) (- 149)"
    and m: "m = round_half_even (x / 2 powi e)"
    and r: "round32 x =
           (if 2 ^ 128 \<le> \<bar>real_of_int m * 2 powi e\<bar> then (if 0 < x then PInf else NInf)
            else Fin (real_of_int m * 2 powi e))"
    by blast
  have "\<bar>x\<bar> = \<bar>real_of_int m0\<bar> * 2 powi e0"
    by (simp add: assms(1) abs_mult)
  also have "\<dots> < 2 ^ 24 * 2 powi e0"
  proof -
    have "real_of_int \<bar>m0\<bar> < real_of_int (2 ^ 24)"
      using assms(2) by (simp only: of_int_less_iff)
    then have "\<bar>real_of_int m0\<bar> < 2 ^ 24" by simp
    then show ?thesis by (intro mult_strict_right_mono) simp_all
  qed
  also have "\<dots> = 2 powi (24 + e0)"
    by (simp add: powi_two_add)
  finally have "(2 :: real) powi k < 2 powi (24 + e0)"
    using lo by linarith
  then have "k < 24 + e0" by (rule powi_two_less_D)
  with e assms(3) have ee: "e \<le> e0" by simp
  define n :: int where "n = m0 * 2 ^ nat (e0 - e)"
  have "x / 2 powi e = real_of_int m0 * (2 powi e0 / 2 powi e)"
    by (simp add: assms(1))
  also have "\<dots> = real_of_int m0 * 2 powi (e0 - e)"
    by (simp add: powi_two_diff)
  also have "\<dots> = real_of_int n"
    using ee by (simp add: n_def powi_two_int)
  finally have y: "x / 2 powi e = real_of_int n" .
  then have "m = n"
    by (simp add: m)
  moreover have "real_of_int n * 2 powi e = x"
    using y by (simp add: field_simps)
  ultimately show ?thesis
    using r assms(4) by simp
qed

lemma round32_exact:
  assumes "x = real_of_int m0 * 2 powi e0" and "\<bar>m0\<bar> \<le> 2 ^ 24" and "- 149 \<le> e0"
    and "\<bar>x\<bar> < 2 ^ 128"
  shows "round32 x = Fin x"
proof (cases "\<bar>m0\<bar> < 2 ^ 24")
  case True
  with assms show ?thesis by (intro round32_exact_strict [of x m0 e0]) simp_all
next
  case False
  with assms(2) have "\<bar>m0\<bar> = 2 ^ 24" by simp
  then consider "m0 = 2 ^ 24" | "m0 = - (2 ^ 24)" by linarith
  then have "x = real_of_int (m0 div 2) * 2 powi (e0 + 1) \<and> \<bar>m0 div 2\<bar> < 2 ^ 24"
    by cases (simp_all add: assms(1) powi_two_add)
  then show ?thesis
    using assms(3,4) by (intro round32_exact_strict [of x "m0 div 2" "e0 + 1"]) simp_all
qed

text \<open>Every finite result has a significand of 24 bits and lies on the grid of the
  subnormal numbers; a number of that grid rounds to zero only when it is zero; the
  relative error of a rounding in the normal range is at most \<open>2 ^ (- 24)\<close>.\<close>

lemma round32_form:
  assumes "round32 x = Fin r"
  shows "\<exists>m e. r = real_of_int m * 2 powi e \<and> \<bar>m\<bar> \<le> 2 ^ 24 \<and> - 149 \<le> e \<and> \<bar>r\<bar> < 2 ^ 128"
proof (cases "x = 0")
  case True
  with assms have "r = 0" by (simp add: round32_def)
  then show ?thesis
    by (intro exI [of _ 0]) simp
next
  case False
  from round32_anatomy [OF False] obtain k e m where
    hi: "\<bar>x\<bar> < 2 powi (k + 1)" and e: "e = max (k - 23) (- 149)"
    and m: "m = round_half_even (x / 2 powi e)"
    and r: "round32 x =
           (if 2 ^ 128 \<le> \<bar>real_of_int m * 2 powi e\<bar> then (if 0 < x then PInf else NInf)
            else Fin (real_of_int m * 2 powi e))"
    by blast
  from r assms have fin: "\<bar>real_of_int m * 2 powi e\<bar> < 2 ^ 128"
    and rr: "r = real_of_int m * 2 powi e"
    by (auto split: if_splits)
  define y where "y = x / 2 powi e"
  have "\<bar>y\<bar> = \<bar>x\<bar> / 2 powi e"
    by (simp add: y_def abs_divide)
  also have "\<dots> < 2 powi (k + 1) / 2 powi e"
    using hi by (intro divide_strict_right_mono) simp_all
  also have "\<dots> = 2 powi (k + 1 - e)"
    by (simp add: powi_two_diff)
  also have "\<dots> \<le> 2 powi 24"
    using e by (intro powi_two_mono) simp
  finally have "\<bar>y\<bar> < real_of_int (2 ^ 24)"
    by simp
  then have "y \<le> real_of_int (2 ^ 24)" "real_of_int (- (2 ^ 24)) \<le> y"
    by simp_all
  then have "m \<le> 2 ^ 24" "- (2 ^ 24) \<le> m"
    unfolding m y_def [symmetric]
    by (simp_all only: round_half_even_le round_half_even_ge)
  then have "\<bar>m\<bar> \<le> 2 ^ 24" by simp
  moreover have "- 149 \<le> e" using e by simp
  ultimately show ?thesis
    using rr fin by blast
qed

lemma round32_idem: "round32 x = Fin r \<Longrightarrow> round32 r = Fin r"
  using round32_form [of x r] round32_exact by blast

lemma round32_grid:
  assumes "round32 x = Fin r"
  shows "\<exists>n. r = real_of_int n / 2 ^ 149"
proof -
  from round32_form [OF assms] obtain m e where
    r: "r = real_of_int m * 2 powi e" and e: "- 149 \<le> e"
    by blast
  have "(2 :: real) powi e = 2 powi (e + 149) / 2 powi 149"
    using powi_two_diff [of "e + 149" 149] by simp
  also have "(2 :: real) powi (e + 149) = real_of_int (2 ^ nat (e + 149))"
    using e by (simp add: powi_two_int)
  finally have "r = real_of_int (m * 2 ^ nat (e + 149)) / 2 ^ 149"
    by (simp add: r)
  then show ?thesis ..
qed

lemma round32_zero:
  assumes "round32 x = Fin 0"
  shows "\<bar>x\<bar> \<le> 1 / 2 ^ 150"
proof (cases "x = 0")
  case True
  then show ?thesis by simp
next
  case False
  from round32_anatomy [OF False] obtain k e m where
    lo: "2 powi k \<le> \<bar>x\<bar>" and e: "e = max (k - 23) (- 149)"
    and m: "m = round_half_even (x / 2 powi e)"
    and r: "round32 x =
           (if 2 ^ 128 \<le> \<bar>real_of_int m * 2 powi e\<bar> then (if 0 < x then PInf else NInf)
            else Fin (real_of_int m * 2 powi e))"
    by blast
  from r assms have "real_of_int m * 2 powi e = 0"
    by (auto split: if_splits)
  then have "m = 0" by simp
  define y where "y = x / 2 powi e"
  have "\<bar>real_of_int m - y\<bar> \<le> 1 / 2"
    unfolding m y_def by (rule round_half_even_error)
  then have "\<bar>y\<bar> \<le> 1 / 2"
    by (simp add: \<open>m = 0\<close>)
  moreover have "\<bar>y\<bar> = \<bar>x\<bar> / 2 powi e"
    by (simp add: y_def abs_divide)
  ultimately have "\<bar>x\<bar> \<le> 2 powi e / 2"
    by (simp add: field_simps)
  also have "\<dots> = 2 powi (e - 1)"
    by (simp add: powi_two_diff)
  finally have x: "\<bar>x\<bar> \<le> 2 powi (e - 1)" .
  show ?thesis
  proof (cases "e = - 149")
    case True
    with x show ?thesis by simp
  next
    case False
    with e have "e = k - 23" by simp
    with x lo have "(2 :: real) powi k \<le> 2 powi (k - 24)" by simp
    then have "k \<le> k - 24" by (rule powi_two_le_D)
    then show ?thesis by simp
  qed
qed

lemma round32_grid_zero:
  assumes "round32 x = Fin 0" and "x = real_of_int n / 2 ^ 149"
  shows "x = 0"
proof -
  have "\<bar>real_of_int n\<bar> / 2 ^ 149 \<le> 1 / 2 ^ 150"
    using round32_zero [OF assms(1)] by (simp add: assms(2))
  then have "\<bar>real_of_int n\<bar> \<le> 1 / 2"
    by (simp add: field_simps)
  then have "n = 0" by linarith
  then show ?thesis by (simp add: assms(2))
qed

lemma round32_lower:
  assumes "2 powi j \<le> x" and "- 149 \<le> j" and "x \<le> 2 powi 127"
  shows "\<exists>r. round32 x = Fin r \<and> 2 powi j \<le> r"
proof -
  have xpos: "0 < x"
    using assms(1) powi_two_pos [of j] by linarith
  then have nz: "x \<noteq> 0" by simp
  from round32_anatomy [OF nz] obtain k e m where
    lo: "2 powi k \<le> \<bar>x\<bar>" and hi: "\<bar>x\<bar> < 2 powi (k + 1)" and e: "e = max (k - 23) (- 149)"
    and m: "m = round_half_even (x / 2 powi e)"
    and r: "round32 x =
           (if 2 ^ 128 \<le> \<bar>real_of_int m * 2 powi e\<bar> then (if 0 < x then PInf else NInf)
            else Fin (real_of_int m * 2 powi e))"
    by blast
  have "(2 :: real) powi j < 2 powi (k + 1)"
    using assms(1) hi xpos by simp
  then have jk: "j \<le> k" using powi_two_less_D [of j "k + 1"] by simp
  with e assms(2) have ek: "e \<le> k" by simp
  define N :: int where "N = 2 ^ nat (k - e)"
  have N: "real_of_int N = 2 powi (k - e)"
    using ek by (simp add: N_def powi_two_int)
  define y where "y = x / 2 powi e"
  have "real_of_int N = 2 powi k / 2 powi e"
    by (simp add: N powi_two_diff)
  also have "\<dots> \<le> x / 2 powi e"
    using lo xpos by (intro divide_right_mono) simp_all
  finally have "real_of_int N \<le> y" by (simp add: y_def)
  then have "N \<le> m"
    unfolding m y_def [symmetric] by (rule round_half_even_ge)
  then have "real_of_int N * 2 powi e \<le> real_of_int m * 2 powi e"
    by (intro mult_right_mono) simp_all
  moreover have "real_of_int N * 2 powi e = 2 powi k"
    by (simp add: N powi_two_diff)
  moreover have "(2 :: real) powi j \<le> 2 powi k"
    using jk by (rule powi_two_mono)
  ultimately have low: "2 powi j \<le> real_of_int m * 2 powi e"
    by linarith
  from round32_bounded [of x 127] assms(3) xpos obtain r' where
    "round32 x = Fin r'" by auto
  with r have "round32 x = Fin (real_of_int m * 2 powi e)"
    by (auto split: if_splits)
  with low show ?thesis by blast
qed


subsection \<open>Binary32 numbers\<close>

lemma representable_round32: "round32 x = Fin r \<Longrightarrow> representable r"
  by (simp add: representable_def round32_idem)

lemma representable_form:
  "x = real_of_int m * 2 powi e \<Longrightarrow> \<bar>m\<bar> \<le> 2 ^ 24 \<Longrightarrow> - 149 \<le> e \<Longrightarrow> \<bar>x\<bar> < 2 ^ 128 \<Longrightarrow>
   representable x"
  unfolding representable_def by (rule round32_exact)

lemma representable_int: "\<bar>i\<bar> \<le> 2 ^ 24 \<Longrightarrow> representable (real_of_int i)"
proof -
  assume a: "\<bar>i\<bar> \<le> 2 ^ 24"
  then have "real_of_int \<bar>i\<bar> \<le> real_of_int (2 ^ 24)"
    by (simp only: of_int_le_iff)
  then have "\<bar>real_of_int i\<bar> < 2 ^ 128" by simp
  with a show ?thesis
    by (intro representable_form [where m = i and e = 0]) simp_all
qed

lemma representable_grid:
  assumes "representable r"
  shows "\<exists>n. r = real_of_int n / 2 ^ 149"
  using assms round32_grid [of r r] by (simp add: representable_def)

lemma representable_scale:
  assumes "representable r" and "0 \<le> k" and "\<bar>2 ^ nat k * r\<bar> < 2 ^ 128"
  shows "representable (2 ^ nat k * r)"
proof -
  from assms(1) round32_form [of r r] obtain m e where
    r: "r = real_of_int m * 2 powi e" and m: "\<bar>m\<bar> \<le> 2 ^ 24" and e: "- 149 \<le> e"
    by (auto simp: representable_def)
  have "2 ^ nat k * r = real_of_int m * 2 powi (e + k)"
    using assms(2) by (simp add: r powi_two_add power_int_nonneg_exp)
  then show ?thesis
    using m e assms(2,3) by (intro representable_form [where m = m and e = "e + k"]) simp_all
qed

text \<open>Some numbers that are their own rounding.\<close>

lemma round32_values:
  "round32 2 = Fin 2" "round32 (3 / 2) = Fin (3 / 2)" "round32 (1 / 2) = Fin (1 / 2)"
  "round32 1 = Fin 1" "round32 6 = Fin 6" "round32 (- (1 / 2)) = Fin (- (1 / 2))"
  "round32 4294967296 = Fin 4294967296"
  by (rule round32_exact [where ?m0.0 = 2 and ?e0.0 = 0], simp_all)
     (rule round32_exact [where ?m0.0 = 3 and ?e0.0 = "- 1"], simp_all,
      rule round32_exact [where ?m0.0 = 1 and ?e0.0 = "- 1"], simp_all,
      rule round32_exact [where ?m0.0 = 1 and ?e0.0 = 0], simp_all,
      rule round32_exact [where ?m0.0 = 6 and ?e0.0 = 0], simp_all,
      rule round32_exact [where ?m0.0 = "- 1" and ?e0.0 = "- 1"], simp_all,
      rule round32_exact [where ?m0.0 = 1 and ?e0.0 = 32], simp_all)

text \<open>An \<^verbatim>\<open>int\<close> of magnitude up to \<open>2 ^ 24\<close> is converted exactly.\<close>

lemma float_of_int_exact: "\<bar>i\<bar> \<le> 2 ^ 24 \<Longrightarrow> float_of_int i = Fin (real_of_int i)"
  using representable_int [of i] by (simp add: float_of_int_def representable_def)

section \<open>Face classification in binary32\<close>










subsection \<open>Finite directions\<close>

text \<open>For \<open>\<bar>u\<bar> \<le> m\<close> the three rounded operations of lines 98 and 99 stay in the unit
  interval.\<close>

lemma tex_coord_unit:
  assumes "\<bar>u\<bar> \<le> m" and "0 < m"
  shows "\<exists>s. fmul (Fin 0.5) (fadd (fdiv (Fin u) (Fin m)) (Fin 1)) = Fin s \<and>
           0 \<le> s \<and> s \<le> 1 \<and> representable s"
proof -
  have "\<exists>r. round32 (u / m) = Fin r \<and> \<bar>r\<bar> \<le> 2 powi 0 \<and>
          (0 \<le> u / m \<longrightarrow> 0 \<le> r) \<and> (u / m \<le> 0 \<longrightarrow> r \<le> 0)"
    by (rule round32_bounded) (use assms in \<open>simp_all add: abs_divide\<close>)
  then obtain q where q: "round32 (u / m) = Fin q" and qb: "\<bar>q\<bar> \<le> 1"
    by auto
  have "\<exists>r. round32 (q + 1) = Fin r \<and> \<bar>r\<bar> \<le> 2 powi 1 \<and>
          (0 \<le> q + 1 \<longrightarrow> 0 \<le> r) \<and> (q + 1 \<le> 0 \<longrightarrow> r \<le> 0)"
    by (rule round32_bounded) (use qb in simp_all)
  then obtain p where p: "round32 (q + 1) = Fin p" and pb: "\<bar>p\<bar> \<le> 2" and pp: "0 \<le> p"
    using qb by auto
  have "\<exists>r. round32 (p / 2) = Fin r \<and> \<bar>r\<bar> \<le> 2 powi 0 \<and>
          (0 \<le> p / 2 \<longrightarrow> 0 \<le> r) \<and> (p / 2 \<le> 0 \<longrightarrow> r \<le> 0)"
    by (rule round32_bounded) (use pb in simp_all)
  then obtain s where s: "round32 (p / 2) = Fin s" and sb: "\<bar>s\<bar> \<le> 1" and sp: "0 \<le> s"
    using pp by auto
  have "representable s"
    using s by (rule representable_round32)
  then show ?thesis
    using assms(2) q p s sb sp by simp
qed

lemma select_axis_f32_Fin:
  "select_axis_f32 (Fin a) (Fin b) (Fin c) = select_axis a b c"
  by (simp add: select_axis_f32_def select_axis_def Let_def)

lemma classify_f32_finite:
  assumes "(a, b, c) \<noteq> (0, 0, 0)"
  shows "\<exists>axis tmp_s tmp_t m face s t.
           select_axis_f32 (Fin a) (Fin b) (Fin c) = Inr axis \<and>
           (axis = 0 \<or> axis = 1 \<or> axis = 2) \<and>
           face_projection_f32 (Fin a) (Fin b) (Fin c)
             (face_index_f32 (Fin a) (Fin b) (Fin c) axis) = Inr (Fin tmp_s, Fin tmp_t, Fin m) \<and>
           0 < m \<and>
           CubeFace_of (face_index_f32 (Fin a) (Fin b) (Fin c) axis) = Some face \<and>
           face \<noteq> NUM_FACES \<and>
           computeTexCoords_f32 (Fin a) (Fin b) (Fin c) = Inr (face, Fin s, Fin t) \<and>
           0 \<le> s \<and> s \<le> 1 \<and> 0 \<le> t \<and> t \<le> 1 \<and> representable s \<and> representable t"
proof -
  consider
    (X) "select_axis a b c = Inr 0" "\<bar>b\<bar> \<le> \<bar>a\<bar>" "\<bar>c\<bar> \<le> \<bar>a\<bar>"
  | (Y) "select_axis a b c = Inr 1" "\<bar>a\<bar> < \<bar>b\<bar>" "\<bar>c\<bar> \<le> \<bar>b\<bar>"
  | (Z) "select_axis a b c = Inr 2" "\<bar>a\<bar> < \<bar>c\<bar>" "\<bar>b\<bar> < \<bar>c\<bar>"
    using select_axis_cases [of a b c] by blast
  then show ?thesis
  proof cases
    case X
    with assms have m: "0 < \<bar>a\<bar>" by auto
    have u: "\<bar>- c\<bar> \<le> \<bar>a\<bar>" "\<bar>- b\<bar> \<le> \<bar>a\<bar>" using X by simp_all
    from tex_coord_unit [OF X(3) m] tex_coord_unit [OF u(1) m] tex_coord_unit [OF u(2) m]
    obtain s1 s2 t where
      "fmul (Fin 0.5) (fadd (fdiv (Fin c) (Fin \<bar>a\<bar>)) (Fin 1)) = Fin s1"
      "0 \<le> s1" "s1 \<le> 1" "representable s1"
      "fmul (Fin 0.5) (fadd (fdiv (Fin (- c)) (Fin \<bar>a\<bar>)) (Fin 1)) = Fin s2"
      "0 \<le> s2" "s2 \<le> 1" "representable s2"
      "fmul (Fin 0.5) (fadd (fdiv (Fin (- b)) (Fin \<bar>a\<bar>)) (Fin 1)) = Fin t"
      "0 \<le> t" "t \<le> 1" "representable t"
      by blast
    with X(1) m show ?thesis
      by (cases "a < 0")
        (simp_all add: computeTexCoords_f32_def select_axis_f32_Fin face_index_f32_def
          face_projection_f32_def CubeFace_of_def)
  next
    case Y
    then have m: "0 < \<bar>b\<bar>" by linarith
    have u: "\<bar>a\<bar> \<le> \<bar>b\<bar>" "\<bar>- c\<bar> \<le> \<bar>b\<bar>" using Y by simp_all
    from tex_coord_unit [OF u(1) m] tex_coord_unit [OF Y(3) m] tex_coord_unit [OF u(2) m]
    obtain s t1 t2 where
      "fmul (Fin 0.5) (fadd (fdiv (Fin a) (Fin \<bar>b\<bar>)) (Fin 1)) = Fin s"
      "0 \<le> s" "s \<le> 1" "representable s"
      "fmul (Fin 0.5) (fadd (fdiv (Fin c) (Fin \<bar>b\<bar>)) (Fin 1)) = Fin t1"
      "0 \<le> t1" "t1 \<le> 1" "representable t1"
      "fmul (Fin 0.5) (fadd (fdiv (Fin (- c)) (Fin \<bar>b\<bar>)) (Fin 1)) = Fin t2"
      "0 \<le> t2" "t2 \<le> 1" "representable t2"
      by blast
    with Y(1) m show ?thesis
      by (cases "b < 0")
        (simp_all add: computeTexCoords_f32_def select_axis_f32_Fin face_index_f32_def
          face_projection_f32_def CubeFace_of_def)
  next
    case Z
    then have m: "0 < \<bar>c\<bar>" by linarith
    have u: "\<bar>a\<bar> \<le> \<bar>c\<bar>" "\<bar>- a\<bar> \<le> \<bar>c\<bar>" "\<bar>- b\<bar> \<le> \<bar>c\<bar>" using Z by simp_all
    from tex_coord_unit [OF u(1) m] tex_coord_unit [OF u(2) m] tex_coord_unit [OF u(3) m]
    obtain s1 s2 t where
      "fmul (Fin 0.5) (fadd (fdiv (Fin a) (Fin \<bar>c\<bar>)) (Fin 1)) = Fin s1"
      "0 \<le> s1" "s1 \<le> 1" "representable s1"
      "fmul (Fin 0.5) (fadd (fdiv (Fin (- a)) (Fin \<bar>c\<bar>)) (Fin 1)) = Fin s2"
      "0 \<le> s2" "s2 \<le> 1" "representable s2"
      "fmul (Fin 0.5) (fadd (fdiv (Fin (- b)) (Fin \<bar>c\<bar>)) (Fin 1)) = Fin t"
      "0 \<le> t" "t \<le> 1" "representable t"
      by blast
    with Z(1) m show ?thesis
      by (cases "c < 0")
        (simp_all add: computeTexCoords_f32_def select_axis_f32_Fin face_index_f32_def
          face_projection_f32_def CubeFace_of_def)
  qed
qed

text \<open>
  C4. Face classification is total on finite directions. For every direction of finite
  binary32 values other than \<open>(0, 0, 0)\<close> the chain of comparisons takes one of its three
  branches (\<open>major_axis\<close> is never read unassigned), the switch matches one of its six
  cases, the divisor \<open>m\<close> is strictly positive, and \<open>computeTexCoords\<close> returns one of the
  six faces with a pair \<open>(s, t)\<close> of finite values, both in \<open>[0, 1]\<close>.
\<close>

theorem classification_f32_total:
  assumes "(a, b, c) \<noteq> (0, 0, 0)"
  shows "\<exists>axis tmp_s tmp_t m face s t.
           select_axis_f32 (Fin a) (Fin b) (Fin c) = Inr axis \<and>
           (axis = 0 \<or> axis = 1 \<or> axis = 2) \<and>
           face_projection_f32 (Fin a) (Fin b) (Fin c)
             (face_index_f32 (Fin a) (Fin b) (Fin c) axis) = Inr (Fin tmp_s, Fin tmp_t, Fin m) \<and>
           0 < m \<and>
           CubeFace_of (face_index_f32 (Fin a) (Fin b) (Fin c) axis) = Some face \<and>
           face \<noteq> NUM_FACES \<and>
           fmul (Fin 0.5) (fadd (fdiv (Fin tmp_s) (Fin m)) (Fin 1)) = Fin s \<and>
           fmul (Fin 0.5) (fadd (fdiv (Fin tmp_t) (Fin m)) (Fin 1)) = Fin t \<and>
           computeTexCoords_f32 (Fin a) (Fin b) (Fin c) = Inr (face, Fin s, Fin t) \<and>
           0 \<le> s \<and> s \<le> 1 \<and> 0 \<le> t \<and> t \<le> 1"
proof -
  from classify_f32_finite [OF assms] obtain axis tmp_s tmp_t m face s t where
    sel: "select_axis_f32 (Fin a) (Fin b) (Fin c) = Inr axis"
    and ax: "axis = 0 \<or> axis = 1 \<or> axis = 2"
    and proj: "face_projection_f32 (Fin a) (Fin b) (Fin c)
             (face_index_f32 (Fin a) (Fin b) (Fin c) axis) = Inr (Fin tmp_s, Fin tmp_t, Fin m)"
    and m: "0 < m"
    and face: "CubeFace_of (face_index_f32 (Fin a) (Fin b) (Fin c) axis) = Some face"
      "face \<noteq> NUM_FACES"
    and res: "computeTexCoords_f32 (Fin a) (Fin b) (Fin c) = Inr (face, Fin s, Fin t)"
    and unit: "0 \<le> s" "s \<le> 1" "0 \<le> t" "t \<le> 1"
    by blast
  have "computeTexCoords_f32 (Fin a) (Fin b) (Fin c) =
      Inr (face, fmul (Fin 0.5) (fadd (fdiv (Fin tmp_s) (Fin m)) (Fin 1)),
                 fmul (Fin 0.5) (fadd (fdiv (Fin tmp_t) (Fin m)) (Fin 1)))"
    by (simp add: computeTexCoords_f32_def sel proj face Let_def)
  with res have
    "fmul (Fin 0.5) (fadd (fdiv (Fin tmp_s) (Fin m)) (Fin 1)) = Fin s"
    "fmul (Fin 0.5) (fadd (fdiv (Fin tmp_t) (Fin m)) (Fin 1)) = Fin t"
    by simp_all
  with sel ax proj m face res unit show ?thesis
    by blast
qed

theorem classification_f32_total_witness:
  "((3 :: real), (- 3 :: real), (2 :: real)) \<noteq> (0, 0, 0) \<and>
   (\<exists>axis tmp_s tmp_t m face s t.
           select_axis_f32 (Fin 3) (Fin (- 3)) (Fin 2) = Inr axis \<and>
           (axis = 0 \<or> axis = 1 \<or> axis = 2) \<and>
           face_projection_f32 (Fin 3) (Fin (- 3)) (Fin 2)
             (face_index_f32 (Fin 3) (Fin (- 3)) (Fin 2) axis) = Inr (Fin tmp_s, Fin tmp_t, Fin m) \<and>
           0 < m \<and>
           CubeFace_of (face_index_f32 (Fin 3) (Fin (- 3)) (Fin 2) axis) = Some face \<and>
           face \<noteq> NUM_FACES \<and>
           fmul (Fin 0.5) (fadd (fdiv (Fin tmp_s) (Fin m)) (Fin 1)) = Fin s \<and>
           fmul (Fin 0.5) (fadd (fdiv (Fin tmp_t) (Fin m)) (Fin 1)) = Fin t \<and>
           computeTexCoords_f32 (Fin 3) (Fin (- 3)) (Fin 2) = Inr (face, Fin s, Fin t) \<and>
           0 \<le> s \<and> s \<le> 1 \<and> 0 \<le> t \<and> t \<le> 1)"
proof (rule conjI)
  show "((3 :: real), (- 3 :: real), (2 :: real)) \<noteq> (0, 0, 0)"
    by simp
  then show "\<exists>axis tmp_s tmp_t m face s t.
           select_axis_f32 (Fin 3) (Fin (- 3)) (Fin 2) = Inr axis \<and>
           (axis = 0 \<or> axis = 1 \<or> axis = 2) \<and>
           face_projection_f32 (Fin 3) (Fin (- 3)) (Fin 2)
             (face_index_f32 (Fin 3) (Fin (- 3)) (Fin 2) axis) = Inr (Fin tmp_s, Fin tmp_t, Fin m) \<and>
           0 < m \<and>
           CubeFace_of (face_index_f32 (Fin 3) (Fin (- 3)) (Fin 2) axis) = Some face \<and>
           face \<noteq> NUM_FACES \<and>
           fmul (Fin 0.5) (fadd (fdiv (Fin tmp_s) (Fin m)) (Fin 1)) = Fin s \<and>
           fmul (Fin 0.5) (fadd (fdiv (Fin tmp_t) (Fin m)) (Fin 1)) = Fin t \<and>
           computeTexCoords_f32 (Fin 3) (Fin (- 3)) (Fin 2) = Inr (face, Fin s, Fin t) \<and>
           0 \<le> s \<and> s \<le> 1 \<and> 0 \<le> t \<and> t \<le> 1"
    by (rule classification_f32_total)
qed

text \<open>
  A direction with infinite components is neither zero nor NaN, and has no such pair:
  for \<open>(\<infinity>, 0, \<infinity>)\<close> the major axis is \<open>x\<close>, the divisor is \<open>\<infinity>\<close>, the raw \<open>s\<close> is
  \<open>- \<infinity>\<close>, and \<open>s\<close> is NaN.
\<close>

theorem classification_infinite_counterexample:
  "(PInf, Fin 0, PInf) \<noteq> (Fin 0, Fin 0, Fin 0) \<and> PInf \<noteq> NaN \<and> Fin 0 \<noteq> NaN \<and>
   select_axis_f32 PInf (Fin 0) PInf = Inr 0 \<and>
   face_projection_f32 PInf (Fin 0) PInf (face_index_f32 PInf (Fin 0) PInf 0) =
     Inr (NInf, Fin 0, PInf) \<and>
   fdiv NInf PInf = NaN \<and>
   computeTexCoords_f32 PInf (Fin 0) PInf = Inr (FACE_POS_X, NaN, Fin (1 / 2))"
  by (simp add: computeTexCoords_f32_def select_axis_f32_def face_index_f32_def
      face_projection_f32_def CubeFace_of_def round32_values)

section \<open>Sampling a face in binary32\<close>

text \<open>One texel coordinate, from the rounded product.\<close>

lemma texel_coord_f32_value:
  assumes "fmul s (float_of_int n) = Fin p"
    and "INT_MIN \<le> trunc_toward_zero p" and "trunc_toward_zero p \<le> INT_MAX"
    and "INT_MIN < n" and "n \<le> INT_MAX"
  shows "texel_coord_f32 s n = Inr (min (trunc_toward_zero p) (n - 1))"
  using assms by (simp add: texel_coord_f32_def float_to_int_def int_result_def)

text \<open>
  C3. For every face with positive width and height and every \<open>s\<close>, \<open>t\<close> whose rounded
  products \<open>p\<close> with the width and \<open>q\<close> with the height are finite and, truncated toward
  zero, fit an \<^verbatim>\<open>int\<close>: \<open>sampleFace cm face s t\<close> is \<open>readTexel cm face x y\<close> with
  \<open>x = min (trunc p) (width - 1)\<close> and \<open>y = min (trunc q) (height - 1)\<close>; when \<open>p\<close> and \<open>q\<close>
  are not negative, \<open>trunc\<close> is \<open>floor\<close>.
\<close>

theorem sampleFace_f32_readTexel:
  assumes "face \<noteq> NUM_FACES"
    and "0 < sint (width (faces cm face))" and "0 < sint (height (faces cm face))"
    and "fmul s (float_of_int (sint (width (faces cm face)))) = Fin p"
    and "fmul t (float_of_int (sint (height (faces cm face)))) = Fin q"
    and "INT_MIN \<le> trunc_toward_zero p" and "trunc_toward_zero p \<le> INT_MAX"
    and "INT_MIN \<le> trunc_toward_zero q" and "trunc_toward_zero q \<le> INT_MAX"
  shows "sampleFace_f32 cm face s t =
           readTexel cm face
             (min (trunc_toward_zero p) (sint (width (faces cm face)) - 1))
             (min (trunc_toward_zero q) (sint (height (faces cm face)) - 1)) \<and>
         (0 \<le> p \<and> 0 \<le> q \<longrightarrow>
            sampleFace_f32 cm face s t =
              readTexel cm face
                (min \<lfloor>p\<rfloor> (sint (width (faces cm face)) - 1))
                (min \<lfloor>q\<rfloor> (sint (height (faces cm face)) - 1)))"
proof -
  let ?w = "sint (width (faces cm face))" and ?h = "sint (height (faces cm face))"
  have x: "texel_coord_f32 s ?w = Inr (min (trunc_toward_zero p) (?w - 1))"
    using assms sint_int_range [of "width (faces cm face)"]
    by (intro texel_coord_f32_value) (simp_all add: INT_MIN_def)
  have y: "texel_coord_f32 t ?h = Inr (min (trunc_toward_zero q) (?h - 1))"
    using assms sint_int_range [of "height (faces cm face)"]
    by (intro texel_coord_f32_value) (simp_all add: INT_MIN_def)
  have 1: "sampleFace_f32 cm face s t =
      readTexel cm face (min (trunc_toward_zero p) (?w - 1)) (min (trunc_toward_zero q) (?h - 1))"
    using face_value_valid [OF assms(1)] x y by (simp add: sampleFace_f32_def Let_def)
  then show ?thesis
    by (simp add: trunc_toward_zero_def)
qed

theorem sampleFace_f32_readTexel_witness:
  "FACE_POS_X \<noteq> NUM_FACES \<and>
   fmul (Fin (3 / 4)) (float_of_int 2) = Fin (3 / 2) \<and>
   fmul (Fin (1 / 4)) (float_of_int 2) = Fin (1 / 2) \<and>
   sampleFace_f32 example_cubemap FACE_POS_X (Fin (3 / 4)) (Fin (1 / 4)) =
     readTexel example_cubemap FACE_POS_X (min \<lfloor>3 / 2 :: real\<rfloor> (2 - 1))
       (min \<lfloor>1 / 2 :: real\<rfloor> (2 - 1)) \<and>
   readTexel example_cubemap FACE_POS_X 1 0 = Inr 1"
proof -
  have w: "sint (width (faces example_cubemap FACE_POS_X)) = 2"
    and h: "sint (height (faces example_cubemap FACE_POS_X)) = 2"
    by (simp_all add: example_cubemap_def example_image_def)
  have f: "float_of_int 2 = Fin 2"
    using float_of_int_exact [of 2] by simp
  have p: "fmul (Fin (3 / 4)) (float_of_int 2) = Fin (3 / 2)"
    and q: "fmul (Fin (1 / 4)) (float_of_int 2) = Fin (1 / 2)"
    by (simp_all add: f round32_values)
  have "sampleFace_f32 example_cubemap FACE_POS_X (Fin (3 / 4)) (Fin (1 / 4)) =
     readTexel example_cubemap FACE_POS_X (min \<lfloor>3 / 2 :: real\<rfloor> (2 - 1))
       (min \<lfloor>1 / 2 :: real\<rfloor> (2 - 1))"
    using sampleFace_f32_readTexel [of FACE_POS_X example_cubemap "Fin (3 / 4)" "3 / 2"
        "Fin (1 / 4)" "1 / 2"] p q
    by (simp add: w h trunc_toward_zero_def INT_MIN_def INT_MAX_def)
  moreover have "readTexel example_cubemap FACE_POS_X 1 0 = Inr 1"
    by (simp add: readTexel_def example_cubemap_def example_image_def int_result_def
        INT_MIN_def INT_MAX_def)
  ultimately show ?thesis
    using p q by simp
qed

text \<open>The faces of \<open>example_strip\<close>.\<close>

lemma strip_dims:
  "0 < n \<Longrightarrow> n < 2 ^ 31 \<Longrightarrow> sint (width (faces (example_strip n) face)) = n"
  "sint (height (faces (example_strip n) face)) = 1"
  "data (faces (example_strip n) face) = map of_nat [0..<nat n]"
  by (simp_all add: example_strip_def sint_sbintrunc' signed_take_bit_int_eq_self)

lemma readTexel_strip:
  assumes "0 \<le> x" and "x < n" and "n < 2 ^ 31"
  shows "readTexel (example_strip n) FACE_POS_X x 0 = Inr (of_nat (nat x))"
proof -
  have n: "0 < n" using assms by simp
  show ?thesis
    using assms
    by (simp add: readTexel_def strip_dims(1) [OF n assms(3)] strip_dims(2,3) int_result_def
        INT_MIN_def INT_MAX_def Let_def)
qed

lemma round32_product_six: "round32 (41943039 / 8388608) = Fin 5"
proof -
  have "round32 (41943039 / 8388608) = Fin (real_of_int 10485760 * 2 powi (- 21))"
    by (rule round32_eval [where k = 2]) simp_all
  then show ?thesis by simp
qed

text \<open>
  The formula \<open>x = min (floor (s * width)) (width - 1)\<close> over the exact product fails in
  three ways. At \<open>s = - 1 / 4\<close> on a face two texels wide the product \<open>- 1 / 2\<close> truncates
  to \<open>0\<close> and its floor is \<open>- 1\<close>. At \<open>s = 13981013 / 16777216\<close> on a face six texels
  wide the exact product is below \<open>5\<close> and rounds to \<open>5\<close>: the program reads texel \<open>5\<close>,
  the formula gives \<open>4\<close>. At \<open>s = 2 ^ 31\<close> the product does not fit an \<^verbatim>\<open>int\<close> and the
  conversion is undefined, where the formula gives the last texel.
\<close>

theorem sampleFace_formula_counterexample:
  "sampleFace_f32 example_cubemap FACE_POS_X (Fin (- 1 / 4)) (Fin (1 / 2)) = Inr 2 \<and>
   readTexel example_cubemap FACE_POS_X
     (min \<lfloor>(- 1 / 4) * real_of_int 2\<rfloor> (2 - 1)) (min \<lfloor>(1 / 2) * real_of_int 2\<rfloor> (2 - 1)) = Inr 1 \<and>
   sampleFace_f32 (example_strip 6) FACE_POS_X (Fin (13981013 / 16777216)) (Fin (1 / 2)) = Inr 5 \<and>
   readTexel (example_strip 6) FACE_POS_X
     (min \<lfloor>(13981013 / 16777216) * real_of_int 6\<rfloor> (6 - 1))
     (min \<lfloor>(1 / 2) * real_of_int 1\<rfloor> (1 - 1)) = Inr 4 \<and>
   sampleFace_f32 example_cubemap FACE_POS_X (Fin 2147483648) (Fin (1 / 2)) = Inl CastOutOfRange \<and>
   readTexel example_cubemap FACE_POS_X
     (min \<lfloor>2147483648 * real_of_int 2\<rfloor> (2 - 1)) (min \<lfloor>(1 / 2) * real_of_int 2\<rfloor> (2 - 1)) = Inr 3"
proof -
  have f: "float_of_int 2 = Fin 2" "float_of_int 6 = Fin 6" "float_of_int 1 = Fin 1"
    using float_of_int_exact [of 2] float_of_int_exact [of 6] float_of_int_exact [of 1]
    by simp_all
  have c: "\<lceil>- (1 / 2) :: real\<rceil> = 0" by linarith
  have a: "sampleFace_f32 example_cubemap FACE_POS_X (Fin (- 1 / 4)) (Fin (1 / 2)) = Inr 2"
    by (simp add: sampleFace_f32_def example_cubemap_def example_image_def texel_coord_f32_def
        f round32_values c float_to_int_def trunc_toward_zero_def int_result_def INT_MIN_def INT_MAX_def
        readTexel_def)
  have b: "readTexel example_cubemap FACE_POS_X
     (min \<lfloor>(- 1 / 4) * real_of_int 2\<rfloor> (2 - 1)) (min \<lfloor>(1 / 2) * real_of_int 2\<rfloor> (2 - 1)) = Inr 1"
    by (simp add: example_cubemap_def example_image_def int_result_def INT_MIN_def INT_MAX_def
        readTexel_def)
  have s6: "texel_coord_f32 (Fin (13981013 / 16777216)) 6 = Inr 5"
    "texel_coord_f32 (Fin (1 / 2)) 1 = Inr 0"
    by (simp_all add: texel_coord_f32_def f round32_product_six round32_values float_to_int_def
        trunc_toward_zero_def int_result_def INT_MIN_def INT_MAX_def)
  have d: "sampleFace_f32 (example_strip 6) FACE_POS_X (Fin (13981013 / 16777216)) (Fin (1 / 2)) = Inr 5"
    using readTexel_strip [of 5 6]
    by (simp add: sampleFace_f32_def strip_dims s6)
  have e: "readTexel (example_strip 6) FACE_POS_X
     (min \<lfloor>(13981013 / 16777216) * real_of_int 6\<rfloor> (6 - 1))
     (min \<lfloor>(1 / 2) * real_of_int 1\<rfloor> (1 - 1)) = Inr 4"
    using readTexel_strip [of 4 6] by simp
  have g: "sampleFace_f32 example_cubemap FACE_POS_X (Fin 2147483648) (Fin (1 / 2)) = Inl CastOutOfRange"
    by (simp add: sampleFace_f32_def example_cubemap_def example_image_def texel_coord_f32_def
        f round32_values float_to_int_def trunc_toward_zero_def INT_MIN_def INT_MAX_def)
  have i: "readTexel example_cubemap FACE_POS_X
     (min \<lfloor>2147483648 * real_of_int 2\<rfloor> (2 - 1)) (min \<lfloor>(1 / 2) * real_of_int 2\<rfloor> (2 - 1)) = Inr 3"
    by (simp add: example_cubemap_def example_image_def int_result_def INT_MIN_def INT_MAX_def
        readTexel_def)
  from a b d e g i show ?thesis by blast
qed

subsection \<open>The centre of a texel\<close>









end
